theory Spec2Isabelle
  imports Complex_Main "HOL-Library.AList"
begin

section \<open>Data model\<close>

text \<open>
  A JavaScript \<^verbatim>\<open>Map\<close> keeps its entries in insertion order and holds every key at
  most once.  It is modelled as an association list: \<^verbatim>\<open>get\<close> is \<^const>\<open>map_of\<close>,
  \<^verbatim>\<open>set\<close> is \<^const>\<open>AList.update\<close> (an existing key keeps its position, a new key is
  appended), \<^verbatim>\<open>delete\<close> is \<^const>\<open>AList.delete\<close>, \<^verbatim>\<open>size\<close> is the length and
  \<^verbatim>\<open>keys()\<close> lists the first components in order.

  Numbers: a JavaScript number is a double.  \<^verbatim>\<open>Date.now()\<close> is an integer count of
  milliseconds, and so are the counters and the configured limits; sums and
  differences of such integers are exact in double arithmetic (they stay far below
  \<open>2 ^ 53\<close>), so they are modelled as \<open>int\<close>.  \<^verbatim>\<open>expiryInSeconds\<close> may be any
  number (the tests pass 0.001 and 0.1), so it and the expiry time computed from it
  are \<open>real\<close>, and the rounding of the double operations that compute the expiry
  time is the parameter \<open>fl\<close> of the methods that compute one (see \<open>addMs\<close>).
  Every method that reads the clock takes the reading as its argument \<open>now\<close>.  A method that reads
  the clock more than once (the file driver's \<^verbatim>\<open>tryAcquireMultiple\<close>,
  \<^verbatim>\<open>recordLockFailure\<close> with its sweep, the coordinator's \<^verbatim>\<open>tryAcquire\<close> around
  the driver call) is modelled with all its readings equal: the clock does not advance
  during one call.  Calls run
  one after the other: other asynchronous calls interleaving at an \<^verbatim>\<open>await\<close> are
  not modelled.
\<close>

abbreviation Map_get :: "('k \<times> 'v) list \<Rightarrow> 'k \<Rightarrow> 'v option" where
  "Map_get m k \<equiv> map_of m k"

abbreviation Map_has :: "('k \<times> 'v) list \<Rightarrow> 'k \<Rightarrow> bool" where
  "Map_has m k \<equiv> map_of m k \<noteq> None"

abbreviation Map_set :: "('k \<times> 'v) list \<Rightarrow> 'k \<Rightarrow> 'v \<Rightarrow> ('k \<times> 'v) list" where
  "Map_set m k v \<equiv> AList.update k v m"

abbreviation Map_delete :: "('k \<times> 'v) list \<Rightarrow> 'k \<Rightarrow> ('k \<times> 'v) list" where
  "Map_delete m k \<equiv> AList.delete k m"

abbreviation Map_size :: "('k \<times> 'v) list \<Rightarrow> int" where
  "Map_size m \<equiv> int (length m)"

abbreviation Map_keys :: "('k \<times> 'v) list \<Rightarrow> 'k list" where
  "Map_keys m \<equiv> map fst m"

text \<open>A thrown JavaScript \<^verbatim>\<open>Error\<close> with its message.\<close>

datatype error = Error string

text \<open>
  The stored lock record \<^verbatim>\<open>{ value, expiresAt, createdAt }\<close> of the memory driver
  (and the \<^verbatim>\<open>FileLock\<close> interface of the file driver, which has the same fields);
  the field \<^verbatim>\<open>value\<close> is named \<open>val\<close> here.  \<^verbatim>\<open>LockInfo\<close> adds the key.
\<close>

record lock_entry =
  val :: string
  expiresAt :: real
  createdAt :: int

record LockInfo = lock_entry +
  key :: string

text \<open>
  The drivers test expiry inline with \<^verbatim>\<open>existing.expiresAt < now\<close>; the predicate
  names that test.  \<open>spec_live\<close> is the specification's wording
  (``a record is live iff \<^verbatim>\<open>now < expiresAt\<close>''), kept apart for comparison.
\<close>

definition isExpired :: "int \<Rightarrow> lock_entry \<Rightarrow> bool" where
  "isExpired now e = (expiresAt e < of_int now)"

definition spec_live :: "int \<Rightarrow> lock_entry \<Rightarrow> bool" where
  "spec_live now e = (of_int now < expiresAt e)"

text \<open>
  The expiry time \<^verbatim>\<open>now + (expiryInSeconds * 1000)\<close>: two double operations, each
  rounding its exact result with \<open>fl\<close>.  Of the rounding only two facts are used, and
  round-to-nearest has both: it is monotone, and it leaves the integers up to
  \<open>2 ^ 53\<close> in magnitude as they are.  The identity (exact arithmetic) is one such
  rounding; \<open>roundTo4096\<close>, which rounds to the nearest multiple of \<open>1 / 4096\<close> (the
  spacing of the doubles around present-day values of \<^verbatim>\<open>Date.now()\<close>), is another.
  A product or sum that overflows to \<^verbatim>\<open>-Infinity\<close> compares like a value below every
  timestamp; \<^verbatim>\<open>NaN\<close> is not modelled.
\<close>

definition addMs :: "(real \<Rightarrow> real) \<Rightarrow> int \<Rightarrow> real \<Rightarrow> real" where
  "addMs fl now expiryInSeconds = fl (of_int now + fl (expiryInSeconds * 1000))"

definition isRounding :: "(real \<Rightarrow> real) \<Rightarrow> bool" where
  "isRounding fl =
     ((\<forall>x y. x \<le> y \<longrightarrow> fl x \<le> fl y)
      \<and> (\<forall>n :: int. \<bar>n\<bar> \<le> 2 ^ 53 \<longrightarrow> fl (of_int n) = of_int n))"

definition roundTo4096 :: "real \<Rightarrow> real" where
  "roundTo4096 x = of_int \<lfloor>x * 4096 + 1 / 2\<rfloor> / 4096"

section \<open>MemoryLockDriver\<close>

text \<open>
  The driver's state is its \<^verbatim>\<open>locks\<close> map.  Every method returns its result
  together with the map it leaves behind.
\<close>

type_synonym locks = "(string \<times> lock_entry) list"

definition MemoryLockDriver_tryAcquire ::
  "(real \<Rightarrow> real) \<Rightarrow> int \<Rightarrow> string \<Rightarrow> string \<Rightarrow> real \<Rightarrow> locks \<Rightarrow> bool \<times> locks" where
  "MemoryLockDriver_tryAcquire fl now k lockValue expiryInSeconds locks =
     (let locks1 =
        (case Map_get locks k of
           Some existing \<Rightarrow> if expiresAt existing < of_int now then Map_delete locks k else locks
         | None \<Rightarrow> locks)
      in if Map_has locks1 k then (False, locks1)
         else (True, Map_set locks1 k
                 \<lparr>val = lockValue, expiresAt = addMs fl now expiryInSeconds, createdAt = now\<rparr>))"

text \<open>The three loops of \<^verbatim>\<open>tryAcquireMultiple\<close>, in the order of the source.\<close>

primrec deleteExpired :: "int \<Rightarrow> string list \<Rightarrow> locks \<Rightarrow> locks" where
  "deleteExpired now [] locks = locks"
| "deleteExpired now (k # ks) locks =
     deleteExpired now ks
       (case Map_get locks k of
          Some existing \<Rightarrow> if expiresAt existing < of_int now then Map_delete locks k else locks
        | None \<Rightarrow> locks)"

primrec anyLocked :: "string list \<Rightarrow> locks \<Rightarrow> bool" where
  "anyLocked [] locks = False"
| "anyLocked (k # ks) locks = (if Map_has locks k then True else anyLocked ks locks)"

primrec setAll :: "string list \<Rightarrow> lock_entry \<Rightarrow> locks \<Rightarrow> locks" where
  "setAll [] lockData locks = locks"
| "setAll (k # ks) lockData locks = setAll ks lockData (Map_set locks k lockData)"

definition MemoryLockDriver_tryAcquireMultiple ::
  "(real \<Rightarrow> real) \<Rightarrow> int \<Rightarrow> string list \<Rightarrow> string \<Rightarrow> real \<Rightarrow> locks
     \<Rightarrow> bool \<times> locks" where
  "MemoryLockDriver_tryAcquireMultiple fl now keys lockValue expiryInSeconds locks =
     (let locks1 = deleteExpired now keys locks
      in if anyLocked keys locks1 then (False, locks1)
         else (True, setAll keys
                 \<lparr>val = lockValue, expiresAt = addMs fl now expiryInSeconds, createdAt = now\<rparr>
                 locks1))"

definition MemoryLockDriver_release :: "string \<Rightarrow> string \<Rightarrow> locks \<Rightarrow> bool \<times> locks" where
  "MemoryLockDriver_release k lockValue locks =
     (case Map_get locks k of
        Some existing \<Rightarrow>
          if val existing = lockValue then (True, Map_delete locks k) else (False, locks)
      | None \<Rightarrow> (False, locks))"

primrec MemoryLockDriver_releaseMultiple :: "string list \<Rightarrow> string \<Rightarrow> locks \<Rightarrow> int \<times> locks" where
  "MemoryLockDriver_releaseMultiple [] lockValue locks = (0, locks)"
| "MemoryLockDriver_releaseMultiple (k # ks) lockValue locks =
     (case MemoryLockDriver_release k lockValue locks of
        (success, locks1) \<Rightarrow>
          (case MemoryLockDriver_releaseMultiple ks lockValue locks1 of
             (released, locks2) \<Rightarrow> ((if success then 1 else 0) + released, locks2)))"

definition MemoryLockDriver_exists :: "int \<Rightarrow> string \<Rightarrow> locks \<Rightarrow> bool \<times> locks" where
  "MemoryLockDriver_exists now k locks =
     (case Map_get locks k of
        None \<Rightarrow> (False, locks)
      | Some existing \<Rightarrow>
          if expiresAt existing < of_int now then (False, Map_delete locks k) else (True, locks))"

definition MemoryLockDriver_getLockInfo ::
  "int \<Rightarrow> string \<Rightarrow> locks \<Rightarrow> LockInfo option \<times> locks" where
  "MemoryLockDriver_getLockInfo now k locks =
     (case Map_get locks k of
        None \<Rightarrow> (None, locks)
      | Some existing \<Rightarrow>
          if expiresAt existing < of_int now then (None, Map_delete locks k)
          else (Some \<lparr>val = val existing, expiresAt = expiresAt existing,
                       createdAt = createdAt existing, key = k\<rparr>, locks))"

section \<open>FileLockDriver\<close>

text \<open>
  The lock directory is a map from paths to file contents.  A lock file either holds
  the JSON of a \<^verbatim>\<open>FileLock\<close> or something \<^verbatim>\<open>JSON.parse\<close> rejects.  The directory
  exists and is writable: an exclusive create (\<^verbatim>\<open>flag: 'wx'\<close>) fails only with
  \<^verbatim>\<open>EEXIST\<close>, and \<^verbatim>\<open>unlink\<close> only with \<^verbatim>\<open>ENOENT\<close>.  The hash
  \<^verbatim>\<open>crypto.createHash('sha256')\<close> is a parameter, and \<^verbatim>\<open>path.join\<close> is the
  concatenation with a slash.
\<close>

datatype file_content = Json lock_entry | Garbage

type_synonym filesystem = "(string \<times> file_content) list"

definition writeFile_wx :: "string \<Rightarrow> file_content \<Rightarrow> filesystem \<Rightarrow> error + filesystem" where
  "writeFile_wx path content fs =
     (if Map_has fs path then Inl (Error ''EEXIST'') else Inr (Map_set fs path content))"

definition unlink :: "string \<Rightarrow> filesystem \<Rightarrow> error + filesystem" where
  "unlink path fs =
     (if Map_has fs path then Inr (Map_delete fs path) else Inl (Error ''ENOENT''))"

definition readLockFile :: "string \<Rightarrow> filesystem \<Rightarrow> lock_entry option" where
  "readLockFile lockPath fs =
     (case Map_get fs lockPath of
        Some (Json fileLock) \<Rightarrow> Some fileLock
      | Some Garbage \<Rightarrow> None
      | None \<Rightarrow> None)"

definition sanitizeChar :: "char \<Rightarrow> char" where
  "sanitizeChar c =
     (if c \<in> set ''abcdefghijklmnopqrstuvwxyzABCDEFGHIJKLMNOPQRSTUVWXYZ0123456789-_''
      then c else CHR ''_'')"

definition getLockPath :: "string \<Rightarrow> (string \<Rightarrow> string) \<Rightarrow> string \<Rightarrow> string" where
  "getLockPath lockDir sha256hex k =
     (let sanitized = map sanitizeChar k
      in if length sanitized > 200
         then lockDir @ ''/'' @ (take 20 sanitized @ ''_'' @ sha256hex k) @ ''.lock''
         else lockDir @ ''/'' @ sanitized @ ''.lock'')"

text \<open>The check loop, the create loop and the rollback loop of \<^verbatim>\<open>tryAcquireMultiple\<close>.\<close>

primrec anyActive :: "int \<Rightarrow> string list \<Rightarrow> filesystem \<Rightarrow> bool" where
  "anyActive now [] fs = False"
| "anyActive now (p # ps) fs =
     (case readLockFile p fs of
        Some existing \<Rightarrow> if expiresAt existing \<ge> of_int now then True else anyActive now ps fs
      | None \<Rightarrow> anyActive now ps fs)"

primrec createAll ::
  "string list \<Rightarrow> file_content \<Rightarrow> string list \<Rightarrow> filesystem
     \<Rightarrow> bool \<times> string list \<times> filesystem" where
  "createAll [] content acquired fs = (True, acquired, fs)"
| "createAll (p # ps) content acquired fs =
     (case writeFile_wx p content fs of
        Inl err \<Rightarrow> (False, acquired, fs)
      | Inr fs1 \<Rightarrow> createAll ps content (acquired @ [p]) fs1)"

primrec rollback :: "string list \<Rightarrow> filesystem \<Rightarrow> filesystem" where
  "rollback [] fs = fs"
| "rollback (p # ps) fs =
     rollback ps (case unlink p fs of Inl err \<Rightarrow> fs | Inr fs1 \<Rightarrow> fs1)"

definition FileLockDriver_tryAcquireMultiple ::
  "(real \<Rightarrow> real) \<Rightarrow> string \<Rightarrow> (string \<Rightarrow> string) \<Rightarrow> int \<Rightarrow> string list \<Rightarrow> string \<Rightarrow> real
     \<Rightarrow> filesystem \<Rightarrow> bool \<times> filesystem" where
  "FileLockDriver_tryAcquireMultiple fl lockDir sha256hex now keys lockValue expiryInSeconds fs =
     (let lockPaths = map (getLockPath lockDir sha256hex) keys;
          lockData = \<lparr>val = lockValue, expiresAt = addMs fl now expiryInSeconds,
                      createdAt = now\<rparr>
      in if anyActive now lockPaths fs then (False, fs)
         else (case createAll lockPaths (Json lockData) [] fs of
                 (True, acquired, fs1) \<Rightarrow> (True, fs1)
               | (False, acquired, fs1) \<Rightarrow> (False, rollback acquired fs1)))"

definition FileLockDriver_exists ::
  "string \<Rightarrow> (string \<Rightarrow> string) \<Rightarrow> int \<Rightarrow> string \<Rightarrow> filesystem \<Rightarrow> bool" where
  "FileLockDriver_exists lockDir sha256hex now k fs =
     (case readLockFile (getLockPath lockDir sha256hex k) fs of
        Some existing \<Rightarrow> expiresAt existing \<ge> of_int now
      | None \<Rightarrow> False)"

definition FileLockDriver_getLockInfo ::
  "string \<Rightarrow> (string \<Rightarrow> string) \<Rightarrow> string \<Rightarrow> filesystem \<Rightarrow> LockInfo option" where
  "FileLockDriver_getLockInfo lockDir sha256hex k fs =
     (case readLockFile (getLockPath lockDir sha256hex k) fs of
        None \<Rightarrow> None
      | Some fileLock \<Rightarrow>
          Some \<lparr>val = val fileLock, expiresAt = expiresAt fileLock,
                 createdAt = createdAt fileLock, key = k\<rparr>)"

section \<open>SQLiteLockDriver\<close>

text \<open>
  The table has one row per \<^verbatim>\<open>lock_key\<close> (the primary key) with the columns
  \<^verbatim>\<open>lock_value\<close>, \<^verbatim>\<open>expires_at\<close> and \<^verbatim>\<open>created_at\<close>, the fields of a lock record.
  The three statements of \<^verbatim>\<open>tryAcquireMultiple\<close> run in one transaction:
  \<^verbatim>\<open>DELETE ... WHERE lock_key IN (keys) AND expires_at < now\<close>,
  \<^verbatim>\<open>SELECT COUNT(*) ... WHERE lock_key IN (keys) AND expires_at >= now\<close>, and one
  \<^verbatim>\<open>INSERT\<close> per key.  An \<^verbatim>\<open>INSERT\<close> of a key the table holds violates the primary
  key; the transaction is then rolled back and the error is thrown.
\<close>

type_synonym lock_table = "(string \<times> lock_entry) list"

definition deleteExpiredRows :: "int \<Rightarrow> string list \<Rightarrow> lock_table \<Rightarrow> lock_table" where
  "deleteExpiredRows now keys rows =
     filter (\<lambda>row. \<not> (fst row \<in> set keys \<and> expiresAt (snd row) < of_int now)) rows"

definition countActiveRows :: "int \<Rightarrow> string list \<Rightarrow> lock_table \<Rightarrow> nat" where
  "countActiveRows now keys rows =
     length (filter (\<lambda>row. fst row \<in> set keys \<and> expiresAt (snd row) \<ge> of_int now) rows)"

definition insertRow :: "string \<Rightarrow> lock_entry \<Rightarrow> lock_table \<Rightarrow> error + lock_table" where
  "insertRow k r rows =
     (if Map_has rows k then Inl (Error ''SQLITE_CONSTRAINT_PRIMARYKEY'')
      else Inr (rows @ [(k, r)]))"

primrec insertRows :: "string list \<Rightarrow> lock_entry \<Rightarrow> lock_table \<Rightarrow> error + lock_table" where
  "insertRows [] r rows = Inr rows"
| "insertRows (k # ks) r rows =
     (case insertRow k r rows of
        Inl err \<Rightarrow> Inl err
      | Inr rows1 \<Rightarrow> insertRows ks r rows1)"

definition SQLiteLockDriver_tryAcquireMultiple ::
  "(real \<Rightarrow> real) \<Rightarrow> int \<Rightarrow> string list \<Rightarrow> string \<Rightarrow> real \<Rightarrow> lock_table
     \<Rightarrow> (error + bool) \<times> lock_table" where
  "SQLiteLockDriver_tryAcquireMultiple fl now keys lockValue expiryInSeconds rows =
     (let rows1 = deleteExpiredRows now keys rows
      in if countActiveRows now keys rows1 > 0 then (Inr False, rows1)
         else (case insertRows keys
                      \<lparr>val = lockValue, expiresAt = addMs fl now expiryInSeconds, createdAt = now\<rparr>
                      rows1 of
                 Inl err \<Rightarrow> (Inl err, rows)
               | Inr rows2 \<Rightarrow> (Inr True, rows2)))"

section \<open>RedisLockDriver\<close>

text \<open>
  The Redis server is not part of the repository: the two commands the Lua script of
  \<^verbatim>\<open>tryAcquireMultiple\<close> calls are parameters.  \<open>EXISTS\<close> answers whether the server
  holds the key at its time \<open>now\<close> (a key whose expiry has passed is gone).
  \<open>SET_EX\<close> is \<^verbatim>\<open>SET key value EX expiry\<close>: it stores the key or raises an error
  (Redis refuses an expiry that is not a positive integer).  An error raised by
  \<^verbatim>\<open>redis.call\<close> aborts the script where it stands and rejects \<^verbatim>\<open>client.eval\<close>.  The
  server runs a script without interleaving other commands; a connection that fails
  is not modelled.
\<close>

record 'r RedisServer =
  EXISTS :: "int \<Rightarrow> string \<Rightarrow> 'r \<Rightarrow> bool"
  SET_EX :: "int \<Rightarrow> string \<Rightarrow> string \<Rightarrow> real \<Rightarrow> 'r \<Rightarrow> error + 'r"

primrec anyExists :: "'r RedisServer \<Rightarrow> int \<Rightarrow> string list \<Rightarrow> 'r \<Rightarrow> bool" where
  "anyExists srv now [] db = False"
| "anyExists srv now (k # ks) db = (if EXISTS srv now k db then True else anyExists srv now ks db)"

primrec setAllEX ::
  "'r RedisServer \<Rightarrow> int \<Rightarrow> string list \<Rightarrow> string \<Rightarrow> real \<Rightarrow> 'r \<Rightarrow> error option \<times> 'r" where
  "setAllEX srv now [] v expiry db = (None, db)"
| "setAllEX srv now (k # ks) v expiry db =
     (case SET_EX srv now k v expiry db of
        Inl err \<Rightarrow> (Some err, db)
      | Inr db1 \<Rightarrow> setAllEX srv now ks v expiry db1)"

definition RedisLockDriver_tryAcquireMultiple ::
  "'r RedisServer \<Rightarrow> int \<Rightarrow> string list \<Rightarrow> string \<Rightarrow> real \<Rightarrow> 'r \<Rightarrow> (error + bool) \<times> 'r" where
  "RedisLockDriver_tryAcquireMultiple srv now keys lockValue expiryInSeconds db =
     (if anyExists srv now keys db then (Inr False, db)
      else (case setAllEX srv now keys lockValue expiryInSeconds db of
              (None, db1) \<Rightarrow> (Inr True, db1)
            | (Some err, db1) \<Rightarrow> (Inl err, db1)))"

text \<open>
  A small server for examples: a key maps to its value and the time its expiry
  passes.
\<close>

definition exampleRedis :: "(string \<times> string \<times> real) list RedisServer" where
  "exampleRedis =
     \<lparr>EXISTS = (\<lambda>now k db.
        case Map_get db k of Some (v, t) \<Rightarrow> of_int now < t | None \<Rightarrow> False),
      SET_EX = (\<lambda>now k v expiry db.
        if 0 < expiry \<and> expiry = of_int \<lfloor>expiry\<rfloor>
        then Inr (Map_set db k (v, of_int now + expiry * 1000))
        else Inl (Error ''ERR invalid expire time in set''))\<rparr>"

section \<open>AtomicLock\<close>

text \<open>
  The \<^verbatim>\<open>LockDriver\<close> interface, as the methods \<^verbatim>\<open>AtomicLock\<close> may call.  A driver
  method gets the clock reading of the call and the driver's state; it returns the new
  state with either its result or the error of a rejected promise.
\<close>

record 'd LockDriver =
  tryAcquire :: "int \<Rightarrow> string \<Rightarrow> string \<Rightarrow> real \<Rightarrow> 'd \<Rightarrow> (error + bool) \<times> 'd"
  tryAcquireMultiple :: "int \<Rightarrow> string list \<Rightarrow> string \<Rightarrow> real \<Rightarrow> 'd \<Rightarrow> (error + bool) \<times> 'd"
  release :: "int \<Rightarrow> string \<Rightarrow> string \<Rightarrow> 'd \<Rightarrow> (error + bool) \<times> 'd"
  releaseMultiple :: "int \<Rightarrow> string list \<Rightarrow> string \<Rightarrow> 'd \<Rightarrow> (error + int) \<times> 'd"

text \<open>The memory driver behind that interface: none of its methods throws.\<close>

definition MemoryLockDriver :: "(real \<Rightarrow> real) \<Rightarrow> locks LockDriver" where
  "MemoryLockDriver fl =
     \<lparr>tryAcquire = (\<lambda>now k v ttl d.
        case MemoryLockDriver_tryAcquire fl now k v ttl d of (b, d1) \<Rightarrow> (Inr b, d1)),
      tryAcquireMultiple = (\<lambda>now ks v ttl d.
        case MemoryLockDriver_tryAcquireMultiple fl now ks v ttl d of (b, d1) \<Rightarrow> (Inr b, d1)),
      release = (\<lambda>now k v d.
        case MemoryLockDriver_release k v d of (b, d1) \<Rightarrow> (Inr b, d1)),
      releaseMultiple = (\<lambda>now ks v d.
        case MemoryLockDriver_releaseMultiple ks v d of (n, d1) \<Rightarrow> (Inr n, d1))\<rparr>"

text \<open>
  \<^verbatim>\<open>LockOptions\<close> (every field optional), the failure record
  \<^verbatim>\<open>{ count, lastFailure }\<close>, \<^verbatim>\<open>CircuitBreakerStats\<close> (its optional field
  \<^verbatim>\<open>lastFailure\<close> is named \<open>lastFailureAt\<close> here) and the fields of the class.
\<close>

record LockOptions =
  expiryInSeconds :: "real option"
  maxRetries :: "int option"
  optCircuitBreakerThreshold :: "int option"
  optCircuitBreakerResetTime :: "int option"
  optMaxFailureEntries :: "int option"

record failure =
  count :: int
  lastFailure :: int

record CircuitBreakerStats =
  isOpen :: bool
  failureCount :: int
  lastFailureAt :: "int option"
  nextAttemptAt :: "int option"

record 'd AtomicLock =
  driver :: 'd
  lockFailures :: "(string \<times> failure) list"
  circuitBreakerThreshold :: int
  circuitBreakerResetTime :: int
  maxFailureEntries :: int
  lastCleanup :: int

definition AtomicLock_new :: "int \<Rightarrow> 'd \<Rightarrow> LockOptions \<Rightarrow> 'd AtomicLock" where
  "AtomicLock_new now d options =
     \<lparr>driver = d,
      lockFailures = [],
      circuitBreakerThreshold =
        (case optCircuitBreakerThreshold options of Some n \<Rightarrow> n | None \<Rightarrow> 5),
      circuitBreakerResetTime =
        (case optCircuitBreakerResetTime options of Some n \<Rightarrow> n | None \<Rightarrow> 30000),
      maxFailureEntries =
        (case optMaxFailureEntries options of Some n \<Rightarrow> n | None \<Rightarrow> 1000),
      lastCleanup = now\<rparr>"

definition isCircuitOpen :: "int \<Rightarrow> string \<Rightarrow> 'd AtomicLock \<Rightarrow> bool" where
  "isCircuitOpen now k st =
     (case Map_get (lockFailures st) k of
        None \<Rightarrow> False
      | Some failure \<Rightarrow>
          (let isOverThreshold = count failure \<ge> circuitBreakerThreshold st;
               isWithinResetTime = now - lastFailure failure < circuitBreakerResetTime st
           in isOverThreshold \<and> isWithinResetTime))"

definition getCircuitBreakerStatus :: "int \<Rightarrow> string \<Rightarrow> 'd AtomicLock \<Rightarrow> CircuitBreakerStats" where
  "getCircuitBreakerStatus now k st =
     (let failure = Map_get (lockFailures st) k
      in \<lparr>isOpen = isCircuitOpen now k st,
          failureCount = (case failure of Some f \<Rightarrow> count f | None \<Rightarrow> 0),
          lastFailureAt = (case failure of Some f \<Rightarrow> Some (lastFailure f) | None \<Rightarrow> None),
          nextAttemptAt =
            (case failure of
               Some f \<Rightarrow> Some (lastFailure f + circuitBreakerResetTime st)
             | None \<Rightarrow> None)\<rparr>)"

text \<open>
  \<^verbatim>\<open>cleanupFailureRecords\<close> walks the entries and deletes the stale ones; deleting
  the entry under the iterator does not disturb a \<^verbatim>\<open>Map\<close> iteration, so the walk is
  over the entries the map had at the start.
\<close>

primrec sweepEntries ::
  "int \<Rightarrow> int \<Rightarrow> (string \<times> failure) list \<Rightarrow> (string \<times> failure) list
     \<Rightarrow> (string \<times> failure) list" where
  "sweepEntries now resetTime [] m = m"
| "sweepEntries now resetTime (e # es) m =
     sweepEntries now resetTime es
       (if now - lastFailure (snd e) > resetTime then Map_delete m (fst e) else m)"

definition cleanupFailureRecords :: "int \<Rightarrow> 'd AtomicLock \<Rightarrow> 'd AtomicLock" where
  "cleanupFailureRecords now st =
     st\<lparr>lockFailures :=
          sweepEntries now (circuitBreakerResetTime st) (lockFailures st) (lockFailures st)\<rparr>"

primrec deleteKeys :: "string list \<Rightarrow> (string \<times> failure) list \<Rightarrow> (string \<times> failure) list" where
  "deleteKeys [] m = m"
| "deleteKeys (k # ks) m = deleteKeys ks (Map_delete m k)"

text \<open>
  \<^verbatim>\<open>recordLockFailure\<close> is three blocks in sequence: the sweep that runs when the
  last one is more than 60 seconds old, the eviction of the first 100 keys when the
  map is full, and the update or insertion of the key's record.
\<close>

definition maybeCleanup :: "int \<Rightarrow> 'd AtomicLock \<Rightarrow> 'd AtomicLock" where
  "maybeCleanup now st =
     (if now - lastCleanup st > 60000
      then (cleanupFailureRecords now st)\<lparr>lastCleanup := now\<rparr> else st)"

definition evictOldest :: "'d AtomicLock \<Rightarrow> 'd AtomicLock" where
  "evictOldest st =
     (if Map_size (lockFailures st) \<ge> maxFailureEntries st
      then st\<lparr>lockFailures :=
             deleteKeys (take 100 (Map_keys (lockFailures st))) (lockFailures st)\<rparr>
      else st)"

definition upsertFailure :: "int \<Rightarrow> string \<Rightarrow> 'd AtomicLock \<Rightarrow> 'd AtomicLock" where
  "upsertFailure now k st =
     (case Map_get (lockFailures st) k of
        Some existing \<Rightarrow>
          st\<lparr>lockFailures := Map_set (lockFailures st) k
                \<lparr>count = (if now - lastFailure existing > circuitBreakerResetTime st
                           then 1 else count existing + 1),
                 lastFailure = now\<rparr>\<rparr>
      | None \<Rightarrow>
          st\<lparr>lockFailures := Map_set (lockFailures st) k \<lparr>count = 1, lastFailure = now\<rparr>\<rparr>)"

definition recordLockFailure :: "int \<Rightarrow> string \<Rightarrow> 'd AtomicLock \<Rightarrow> 'd AtomicLock" where
  "recordLockFailure now k st = upsertFailure now k (evictOldest (maybeCleanup now st))"

text \<open>A run of \<^verbatim>\<open>recordLockFailure\<close> calls, each with its clock reading and key.\<close>

primrec recordLockFailures :: "(int \<times> string) list \<Rightarrow> 'd AtomicLock \<Rightarrow> 'd AtomicLock" where
  "recordLockFailures [] st = st"
| "recordLockFailures (c # cs) st = recordLockFailures cs (recordLockFailure (fst c) (snd c) st)"

text \<open>
  The public methods.  \<open>drv\<close> holds the methods of the driver object, \<open>lockValue\<close> is
  what \<^verbatim>\<open>generateLockValue()\<close> (a version 4 UUID) returns during the call.  A method
  returns \<open>Inl\<close> of the error it throws or \<open>Inr\<close> of its result, with the object's
  new state.
\<close>

definition AtomicLock_tryAcquire ::
  "'d LockDriver \<Rightarrow> int \<Rightarrow> string \<Rightarrow> string \<Rightarrow> LockOptions \<Rightarrow> 'd AtomicLock
     \<Rightarrow> (error + string option) \<times> 'd AtomicLock" where
  "AtomicLock_tryAcquire drv now lockValue k options st =
     (let expiry = (case expiryInSeconds options of Some n \<Rightarrow> n | None \<Rightarrow> 10)
      in if isCircuitOpen now k st then (Inr None, st)
         else (case tryAcquire drv now k lockValue expiry (driver st) of
                 (Inr acquired, d1) \<Rightarrow>
                   if acquired
                   then (Inr (Some lockValue),
                         st\<lparr>driver := d1, lockFailures := Map_delete (lockFailures st) k\<rparr>)
                   else (Inr None, st\<lparr>driver := d1\<rparr>)
               | (Inl err, d1) \<Rightarrow> (Inr None, recordLockFailure now k (st\<lparr>driver := d1\<rparr>))))"

text \<open>\<^verbatim>\<open>if (!lockValue)\<close> is true of \<^verbatim>\<open>null\<close> and of the empty string.\<close>

definition AtomicLock_acquire ::
  "'d LockDriver \<Rightarrow> int \<Rightarrow> string \<Rightarrow> string \<Rightarrow> LockOptions \<Rightarrow> 'd AtomicLock
     \<Rightarrow> (error + string) \<times> 'd AtomicLock" where
  "AtomicLock_acquire drv now lockValue k options st =
     (case AtomicLock_tryAcquire drv now lockValue k options st of
        (Inl err, st1) \<Rightarrow> (Inl err, st1)
      | (Inr None, st1) \<Rightarrow> (Inl (Error (''Failed to acquire lock for key: '' @ k)), st1)
      | (Inr (Some v), st1) \<Rightarrow>
          if v = [] then (Inl (Error (''Failed to acquire lock for key: '' @ k)), st1)
          else (Inr v, st1))"

definition AtomicLock_release ::
  "'d LockDriver \<Rightarrow> int \<Rightarrow> string \<Rightarrow> string \<Rightarrow> 'd AtomicLock
     \<Rightarrow> (error + bool) \<times> 'd AtomicLock" where
  "AtomicLock_release drv now k lockValue st =
     (case release drv now k lockValue (driver st) of
        (Inr released, d1) \<Rightarrow> (Inr released, st\<lparr>driver := d1\<rparr>)
      | (Inl err, d1) \<Rightarrow> (Inr False, st\<lparr>driver := d1\<rparr>))"

text \<open>
  \<^verbatim>\<open>withLock\<close>: the callback may do anything to the object (it is a state
  transformer that returns or throws); \<open>now'\<close> is the clock reading when the
  \<^verbatim>\<open>finally\<close> block runs.  An error thrown inside \<^verbatim>\<open>finally\<close> would replace the
  outcome of the \<^verbatim>\<open>try\<close> block.
\<close>

definition AtomicLock_withLock ::
  "'d LockDriver \<Rightarrow> int \<Rightarrow> int \<Rightarrow> string \<Rightarrow> string
     \<Rightarrow> (string \<Rightarrow> 'd AtomicLock \<Rightarrow> (error + 'r) \<times> 'd AtomicLock)
     \<Rightarrow> LockOptions \<Rightarrow> 'd AtomicLock \<Rightarrow> (error + 'r) \<times> 'd AtomicLock" where
  "AtomicLock_withLock drv now now' lockValue k callback options st =
     (case AtomicLock_acquire drv now lockValue k options st of
        (Inl err, st1) \<Rightarrow> (Inl err, st1)
      | (Inr tok, st1) \<Rightarrow>
          (case callback tok st1 of
             (outcome, st2) \<Rightarrow>
               (case AtomicLock_release drv now' k tok st2 of
                  (Inl err, st3) \<Rightarrow> (Inl err, st3)
                | (Inr released, st3) \<Rightarrow> (outcome, st3))))"

definition AtomicLock_close :: "'d AtomicLock \<Rightarrow> 'd AtomicLock" where
  "AtomicLock_close st = st\<lparr>lockFailures := []\<rparr>"

text \<open>The default argument \<^verbatim>\<open>options: LockOptions = {}\<close>.\<close>

definition noOptions :: LockOptions where
  "noOptions =
     \<lparr>expiryInSeconds = None, maxRetries = None, optCircuitBreakerThreshold = None,
      optCircuitBreakerResetTime = None, optMaxFailureEntries = None\<rparr>"

text \<open>
  The test suite's \<^verbatim>\<open>mockDriver\<close>: its state is the list of calls it has received,
  and each method answers what the test configured (\<open>Inr\<close> for
  \<^verbatim>\<open>mockResolvedValue\<close>, \<open>Inl\<close> for \<^verbatim>\<open>mockRejectedValue\<close>).
\<close>

datatype driver_call =
  TryAcquireCall string string real
| TryAcquireMultipleCall "string list" string real
| ReleaseCall string string
| ReleaseMultipleCall "string list" string

definition mockDriver :: "error + bool \<Rightarrow> error + bool \<Rightarrow> driver_call list LockDriver" where
  "mockDriver acquireAnswer releaseAnswer =
     \<lparr>tryAcquire = (\<lambda>now k v ttl calls. (acquireAnswer, calls @ [TryAcquireCall k v ttl])),
      tryAcquireMultiple =
        (\<lambda>now ks v ttl calls. (acquireAnswer, calls @ [TryAcquireMultipleCall ks v ttl])),
      release = (\<lambda>now k v calls. (releaseAnswer, calls @ [ReleaseCall k v])),
      releaseMultiple = (\<lambda>now ks v calls. (Inr 0, calls @ [ReleaseMultipleCall ks v]))\<rparr>"

text \<open>The methods the class \<^verbatim>\<open>AtomicLock\<close> declares, in the order of the source.\<close>

definition AtomicLock_methods :: "string list" where
  "AtomicLock_methods =
     [''withLock'', ''constructor'', ''createDriver'', ''tryAcquire'', ''acquire'', ''release'',
      ''getCircuitBreakerStatus'', ''isCircuitOpen'', ''recordLockFailure'',
      ''cleanupFailureRecords'', ''generateLockValue'', ''close'']"

section \<open>Properties of the memory driver\<close>

lemma deleteExpired_get:
  "map_of (deleteExpired now ks m) k =
     (case map_of m k of
        Some e \<Rightarrow> if k \<in> set ks \<and> expiresAt e < of_int now then None else Some e
      | None \<Rightarrow> None)"
  by (induction ks arbitrary: m) (auto simp: delete_conv split: option.splits)

lemma anyLocked_iff: "anyLocked ks m = (\<exists>k\<in>set ks. map_of m k \<noteq> None)"
  by (induction ks) auto

subsection \<open>Token-gated release\<close>

text \<open>
  Claim C5, as amended.  \<^verbatim>\<open>release(key, token)\<close> of the memory driver returns
  \<^verbatim>\<open>true\<close> if and only if a record is stored under the key (expired or not: the
  method never reads the clock) and its stored value equals the token; then exactly
  that key's record is deleted.  For any other token, or when no record is stored,
  it returns \<^verbatim>\<open>false\<close> and leaves the map as it was.
\<close>

theorem release_compare_and_delete:
  "(fst (MemoryLockDriver_release k tok locks)
      \<longleftrightarrow> (\<exists>e. Map_get locks k = Some e \<and> val e = tok))
   \<and> snd (MemoryLockDriver_release k tok locks) =
       (if fst (MemoryLockDriver_release k tok locks) then Map_delete locks k else locks)
   \<and> (fst (MemoryLockDriver_release k tok locks)
        \<longrightarrow> Map_get (snd (MemoryLockDriver_release k tok locks)) k = None)"
  by (auto simp: MemoryLockDriver_release_def delete_conv split: option.splits)

text \<open>
  Three runs of \<^verbatim>\<open>release\<close>: the holder's token, another token, and an empty map.
\<close>

theorem release_compare_and_delete_witness:
  "MemoryLockDriver_release ''k'' ''v''
       [(''k'', \<lparr>val = ''v'', expiresAt = 1000, createdAt = 0\<rparr>)] = (True, [])
   \<and> MemoryLockDriver_release ''k'' ''w''
       [(''k'', \<lparr>val = ''v'', expiresAt = 1000, createdAt = 0\<rparr>)]
       = (False, [(''k'', \<lparr>val = ''v'', expiresAt = 1000, createdAt = 0\<rparr>)])
   \<and> MemoryLockDriver_release ''k'' ''v'' [] = (False, [])"
  using release_compare_and_delete [of "''k''" "''v''"
          "[(''k'', \<lparr>val = ''v'', expiresAt = 1000, createdAt = 0\<rparr>)]"]
        release_compare_and_delete [of "''k''" "''w''"
          "[(''k'', \<lparr>val = ''v'', expiresAt = 1000, createdAt = 0\<rparr>)]"]
        release_compare_and_delete [of "''k''" "''v''" "[]"]
  by (simp add: prod_eq_iff)

text \<open>
  Claim C5 as stated speaks of the live record.  A record that expired at 1000 is not
  live at 2000, yet \<^verbatim>\<open>release\<close> with its token returns \<^verbatim>\<open>true\<close> (the test
  ``release expired lock'' of the memory driver expects the same).
\<close>

theorem release_expired_counterexample:
  "fst (MemoryLockDriver_release ''k'' ''v''
          [(''k'', \<lparr>val = ''v'', expiresAt = 1000, createdAt = 0\<rparr>)])
   \<and> \<not> (\<exists>e. Map_get [(''k'', \<lparr>val = ''v'', expiresAt = 1000, createdAt = 0\<rparr>)] ''k'' = Some e
            \<and> spec_live 2000 e \<and> val e = ''v'')"
  by (simp add: MemoryLockDriver_release_def spec_live_def)

subsection \<open>Zero and negative time-to-live\<close>

lemma isRounding_exact: "isRounding (\<lambda>x. x)"
  by (simp add: isRounding_def)

lemma isRounding_roundTo4096: "isRounding roundTo4096"
proof -
  have mono: "roundTo4096 x \<le> roundTo4096 y" if "x \<le> y" for x y
  proof -
    from that have "\<lfloor>x * 4096 + 1 / 2\<rfloor> \<le> \<lfloor>y * 4096 + 1 / 2\<rfloor>"
      by (intro floor_mono) simp
    then show ?thesis
      by (simp add: roundTo4096_def divide_right_mono)
  qed
  have exact: "roundTo4096 (of_int n) = of_int n" for n :: int
  proof -
    have "\<lfloor>(of_int n :: real) * 4096 + 1 / 2\<rfloor> = n * 4096"
      by (rule floor_unique) simp_all
    then show ?thesis by (simp add: roundTo4096_def)
  qed
  show ?thesis
    unfolding isRounding_def using mono exact by blast
qed

lemma addMs_nonpositive:
  assumes "isRounding fl" and "0 \<le> now" and "now \<le> 2 ^ 53" and "ttl \<le> 0"
  shows "addMs fl now ttl \<le> of_int now"
    and "ttl \<le> - (1 / 1000) \<Longrightarrow> addMs fl now ttl < of_int now"
    and "ttl = 0 \<Longrightarrow> addMs fl now ttl = of_int now"
proof -
  from assms(1) have mono: "\<And>x y. x \<le> y \<Longrightarrow> fl x \<le> fl y"
    and exact: "\<And>n :: int. \<bar>n\<bar> \<le> 2 ^ 53 \<Longrightarrow> fl (of_int n) = of_int n"
    by (auto simp: isRounding_def)
  have fl0: "fl 0 = 0" using exact [of 0] by simp
  have flm1: "fl (- 1) = - 1" using exact [of "- 1"] by simp
  have flnow: "fl (of_int now) = of_int now" using exact [of now] assms(2,3) by simp
  have flprev: "fl (of_int now - 1) = of_int now - 1"
    using exact [of "now - 1"] assms(2,3) by simp
  from assms(4) have "fl (ttl * 1000) \<le> fl 0" by (intro mono) simp
  then have "of_int now + fl (ttl * 1000) \<le> of_int now" by (simp add: fl0)
  then have "fl (of_int now + fl (ttl * 1000)) \<le> fl (of_int now)" by (rule mono)
  then show "addMs fl now ttl \<le> of_int now" by (simp add: addMs_def flnow)
  show "addMs fl now ttl < of_int now" if "ttl \<le> - (1 / 1000)"
  proof -
    from that have "fl (ttl * 1000) \<le> fl (- 1)" by (intro mono) simp
    then have "of_int now + fl (ttl * 1000) \<le> of_int now - 1" by (simp add: flm1)
    then have "fl (of_int now + fl (ttl * 1000)) \<le> fl (of_int now - 1)" by (rule mono)
    then show ?thesis by (simp add: addMs_def flprev)
  qed
  show "addMs fl now ttl = of_int now" if "ttl = 0"
    using that by (simp add: addMs_def fl0 flnow)
qed

text \<open>
  Claim C6, as amended.  On a key with no record, or with an expired one,
  \<^verbatim>\<open>tryAcquire\<close> with a zero or negative time-to-live (any number, whole or
  fractional) returns \<^verbatim>\<open>true\<close> and stores a record whose \<^verbatim>\<open>expiresAt\<close> is the computed
  \<^verbatim>\<open>now + expiryInSeconds * 1000\<close>, which is at most \<open>now\<close>.  The driver counts a record
  as expired iff \<^verbatim>\<open>expiresAt < now\<close>, so \<^verbatim>\<open>exists\<close> answers \<^verbatim>\<open>true\<close> up to and
  including the millisecond \<open>expiresAt\<close>, and a later \<^verbatim>\<open>tryAcquire\<close> succeeds only after
  it.  Hence from the next millisecond on \<^verbatim>\<open>exists\<close> is \<^verbatim>\<open>false\<close> and another caller's
  \<^verbatim>\<open>tryAcquire\<close> succeeds; with a time-to-live of minus one millisecond or less
  (\<open>ttl \<le> -0.001\<close>) that holds at once, in the millisecond of the acquisition too.
  When the computed \<^verbatim>\<open>expiresAt\<close> equals \<open>now\<close>, as it does for a zero time-to-live
  (and for a negative one so small that the double sum rounds back to \<open>now\<close>), the
  record still counts as held within the millisecond of the acquisition.
\<close>

theorem tryAcquire_nonpositive_ttl:
  assumes "isRounding fl" and "0 \<le> now" and "now \<le> 2 ^ 53"
    and "ttl \<le> 0"
    and "\<forall>e. Map_get locks k = Some e \<longrightarrow> isExpired now e"
  shows "\<exists>locks1.
      MemoryLockDriver_tryAcquire fl now k tok ttl locks = (True, locks1)
    \<and> Map_get locks1 k = Some \<lparr>val = tok, expiresAt = addMs fl now ttl, createdAt = now\<rparr>
    \<and> addMs fl now ttl \<le> of_int now
    \<and> fst (MemoryLockDriver_exists now' k locks1) = (of_int now' \<le> addMs fl now ttl)
    \<and> fst (MemoryLockDriver_tryAcquire fl' now' k tok' ttl' locks1)
        = (addMs fl now ttl < of_int now')
    \<and> (now < now' \<longrightarrow>
          \<not> fst (MemoryLockDriver_exists now' k locks1)
        \<and> fst (MemoryLockDriver_tryAcquire fl' now' k tok' ttl' locks1))
    \<and> (ttl \<le> - (1 / 1000) \<and> now \<le> now' \<longrightarrow>
          \<not> fst (MemoryLockDriver_exists now' k locks1)
        \<and> fst (MemoryLockDriver_tryAcquire fl' now' k tok' ttl' locks1))
    \<and> (ttl = 0 \<longrightarrow> addMs fl now ttl = of_int now)
    \<and> (addMs fl now ttl = of_int now \<and> now' = now \<longrightarrow>
          fst (MemoryLockDriver_exists now' k locks1)
        \<and> \<not> fst (MemoryLockDriver_tryAcquire fl' now' k tok' ttl' locks1))"
proof -
  define t where "t = addMs fl now ttl"
  define e1 where "e1 = \<lparr>val = tok, expiresAt = t, createdAt = now\<rparr>"
  define locks0 where "locks0 = Map_delete locks k"
  have acq: "MemoryLockDriver_tryAcquire fl now k tok ttl locks = (True, Map_set locks0 k e1)"
    using assms(5)
    by (auto simp: MemoryLockDriver_tryAcquire_def isExpired_def e1_def t_def locks0_def Let_def
        delete_notin_dom map_of_eq_None_iff split: option.splits)
  have get: "Map_get (Map_set locks0 k e1) k = Some e1"
    by (simp add: update_conv')
  have ex: "fst (MemoryLockDriver_exists now' k (Map_set locks0 k e1)) = (of_int now' \<le> t)"
    using get by (auto simp: MemoryLockDriver_exists_def e1_def)
  have re: "fst (MemoryLockDriver_tryAcquire fl' now' k tok' ttl' (Map_set locks0 k e1))
      = (t < of_int now')"
    using get by (auto simp: MemoryLockDriver_tryAcquire_def Let_def e1_def delete_conv)
  have le: "t \<le> of_int now"
    and lt: "ttl \<le> - (1 / 1000) \<Longrightarrow> t < of_int now"
    and eq: "ttl = 0 \<Longrightarrow> t = of_int now"
    unfolding t_def using addMs_nonpositive [OF assms(1-4)] by auto
  have later: "now < now' \<longrightarrow> t < of_int now'"
    using le by auto
  have atonce: "ttl \<le> - (1 / 1000) \<and> now \<le> now' \<longrightarrow> t < of_int now'"
    using lt by auto
  show ?thesis
    apply (rule exI [of _ "Map_set locks0 k e1"])
    using acq get ex re le eq later atonce unfolding e1_def t_def
    by auto
qed

text \<open>
  Exact arithmetic, an empty map and time 1000: a time-to-live of \<open>-1\<close> second and
  one of minus a millisecond and a half are both expired when read again in the same
  millisecond.
\<close>

theorem tryAcquire_nonpositive_ttl_witness:
  "isRounding (\<lambda>x. x)
   \<and> (- 1 :: real) \<le> 0
   \<and> Map_get ([] :: locks) ''k'' = None
   \<and> MemoryLockDriver_tryAcquire (\<lambda>x. x) 1000 ''k'' ''t1'' (- 1) [] =
       (True, [(''k'', \<lparr>val = ''t1'', expiresAt = 0, createdAt = 1000\<rparr>)])
   \<and> \<not> fst (MemoryLockDriver_exists 1000 ''k''
            [(''k'', \<lparr>val = ''t1'', expiresAt = 0, createdAt = 1000\<rparr>)])
   \<and> fst (MemoryLockDriver_tryAcquire (\<lambda>x. x) 1000 ''k'' ''t2'' 10
            [(''k'', \<lparr>val = ''t1'', expiresAt = 0, createdAt = 1000\<rparr>)])
   \<and> MemoryLockDriver_tryAcquire (\<lambda>x. x) 1000 ''k'' ''t1'' (- (3 / 2000)) [] =
       (True, [(''k'', \<lparr>val = ''t1'', expiresAt = 1997 / 2, createdAt = 1000\<rparr>)])
   \<and> \<not> fst (MemoryLockDriver_exists 1000 ''k''
            [(''k'', \<lparr>val = ''t1'', expiresAt = 1997 / 2, createdAt = 1000\<rparr>)])"
proof -
  have r: "isRounding (\<lambda>x. x)" by (rule isRounding_exact)
  have lo: "(0 :: int) \<le> 1000" and hi: "(1000 :: int) \<le> 2 ^ 53" by simp_all
  have ttl1: "(- 1 :: real) \<le> 0" and ttl2: "(- (3 / 2000) :: real) \<le> 0" by simp_all
  have free: "\<forall>e. Map_get ([] :: locks) ''k'' = Some e \<longrightarrow> isExpired 1000 e" by simp
  have acq1: "MemoryLockDriver_tryAcquire (\<lambda>x. x) 1000 ''k'' ''t1'' (- 1) [] =
       (True, [(''k'', \<lparr>val = ''t1'', expiresAt = 0, createdAt = 1000\<rparr>)])"
    by (simp add: MemoryLockDriver_tryAcquire_def addMs_def)
  have acq2: "MemoryLockDriver_tryAcquire (\<lambda>x. x) 1000 ''k'' ''t1'' (- (3 / 2000)) [] =
       (True, [(''k'', \<lparr>val = ''t1'', expiresAt = 1997 / 2, createdAt = 1000\<rparr>)])"
    by (simp add: MemoryLockDriver_tryAcquire_def addMs_def)
  from tryAcquire_nonpositive_ttl [OF r lo hi ttl1 free, of "''t1''" 1000 "\<lambda>x. x" "''t2''" 10] acq1
  have one: "\<not> fst (MemoryLockDriver_exists 1000 ''k''
            [(''k'', \<lparr>val = ''t1'', expiresAt = 0, createdAt = 1000\<rparr>)])
    \<and> fst (MemoryLockDriver_tryAcquire (\<lambda>x. x) 1000 ''k'' ''t2'' 10
            [(''k'', \<lparr>val = ''t1'', expiresAt = 0, createdAt = 1000\<rparr>)])"
    by auto
  from tryAcquire_nonpositive_ttl [OF r lo hi ttl2 free, of "''t1''" 1000 "\<lambda>x. x" "''t2''" 10] acq2
  have two: "\<not> fst (MemoryLockDriver_exists 1000 ''k''
            [(''k'', \<lparr>val = ''t1'', expiresAt = 1997 / 2, createdAt = 1000\<rparr>)])"
    by auto
  from r acq1 acq2 one two show ?thesis by simp
qed

text \<open>
  Claim C6 as stated fails for a zero time-to-live (where the double arithmetic is
  exact): in the millisecond of the acquisition the record is not live in the
  specification's sense, but \<^verbatim>\<open>exists\<close> returns \<^verbatim>\<open>true\<close> and a second
  \<^verbatim>\<open>tryAcquire\<close> returns \<^verbatim>\<open>false\<close> (the memory driver's test ``zero expiry time''
  expects \<^verbatim>\<open>exists\<close> to be \<^verbatim>\<open>true\<close>).
\<close>

theorem zero_ttl_counterexample:
  "MemoryLockDriver_tryAcquire (\<lambda>x. x) 1000 ''k'' ''t1'' 0 [] =
     (True, [(''k'', \<lparr>val = ''t1'', expiresAt = 1000, createdAt = 1000\<rparr>)])
   \<and> \<not> spec_live 1000 \<lparr>val = ''t1'', expiresAt = 1000, createdAt = 1000\<rparr>
   \<and> fst (MemoryLockDriver_exists 1000 ''k''
            [(''k'', \<lparr>val = ''t1'', expiresAt = 1000, createdAt = 1000\<rparr>)])
   \<and> \<not> fst (MemoryLockDriver_tryAcquire (\<lambda>x. x) 1000 ''k'' ''t2'' 10
            [(''k'', \<lparr>val = ''t1'', expiresAt = 1000, createdAt = 1000\<rparr>)])"
  by (simp add: MemoryLockDriver_tryAcquire_def MemoryLockDriver_exists_def spec_live_def
      addMs_def)

text \<open>
  A negative time-to-live need not expire at once.  With the spacing of the doubles
  around the timestamp 1700000000000, a time-to-live of \<open>-0.0000001\<close> seconds gives
  an \<^verbatim>\<open>expiresAt\<close> equal to \<open>now\<close>: in that millisecond \<^verbatim>\<open>exists\<close> is \<^verbatim>\<open>true\<close> and
  a second \<^verbatim>\<open>tryAcquire\<close> is refused.
\<close>

lemma tiny_negative_ttl_rounds_to_now:
  "addMs roundTo4096 1700000000000 (- (1 / 10000000)) = 1700000000000
   \<and> fst (MemoryLockDriver_exists 1700000000000 ''k''
        (snd (MemoryLockDriver_tryAcquire roundTo4096 1700000000000 ''k'' ''t1''
                (- (1 / 10000000)) [])))
   \<and> \<not> fst (MemoryLockDriver_tryAcquire roundTo4096 1700000000000 ''k'' ''t2'' 10
        (snd (MemoryLockDriver_tryAcquire roundTo4096 1700000000000 ''k'' ''t1''
                (- (1 / 10000000)) [])))"
proof -
  have a: "roundTo4096 (- (1 / 10000000) * 1000) = 0"
    by (simp add: roundTo4096_def)
  have b: "roundTo4096 1700000000000 = 1700000000000"
    by (simp add: roundTo4096_def)
  have c: "addMs roundTo4096 1700000000000 (- (1 / 10000000)) = 1700000000000"
    using a b by (simp add: addMs_def)
  show ?thesis
    by (simp add: c MemoryLockDriver_tryAcquire_def MemoryLockDriver_exists_def)
qed

section \<open>All-or-nothing acquisition of several keys\<close>

text \<open>
  The file driver's rollback deletes exactly the files the create loop made: the create
  loop only appends files that were absent, so a failed call leaves the directory as
  it found it.
\<close>

lemma rollback_step: "(case unlink p fs of Inl err \<Rightarrow> fs | Inr fs1 \<Rightarrow> fs1) = AList.delete p fs"
  by (simp add: unlink_def map_of_eq_None_iff)

lemma rollback_filter: "rollback ps fs = filter (\<lambda>e. fst e \<notin> set ps) fs"
proof (induction ps arbitrary: fs)
  case Nil
  then show ?case by simp
next
  case (Cons p ps)
  have "rollback (p # ps) fs = rollback ps (AList.delete p fs)"
    by (simp add: rollback_step)
  also have "\<dots> = filter (\<lambda>e. fst e \<notin> set ps) (AList.delete p fs)"
    by (rule Cons.IH)
  also have "\<dots> = filter (\<lambda>e. fst e \<notin> set (p # ps)) fs"
    by (auto simp: AList.delete_eq intro: filter_cong)
  finally show ?case .
qed

lemma update_fresh: "map_of m k = None \<Longrightarrow> AList.update k v m = m @ [(k, v)]"
  by (induction m) (auto split: if_splits)

lemma createAll_shape:
  "createAll ps c acq fs = (ok, acq', fs') \<Longrightarrow>
     \<exists>qs. acq' = acq @ qs \<and> fs' = fs @ map (\<lambda>p. (p, c)) qs \<and> set qs \<inter> fst ` set fs = {}"
proof (induction ps arbitrary: acq fs)
  case Nil
  then show ?case by simp
next
  case (Cons p ps)
  show ?case
  proof (cases "map_of fs p = None")
    case False
    with Cons.prems show ?thesis by (simp add: writeFile_wx_def)
  next
    case True
    with Cons.prems have "createAll ps c (acq @ [p]) (fs @ [(p, c)]) = (ok, acq', fs')"
      by (simp add: writeFile_wx_def update_fresh)
    from Cons.IH [OF this] obtain qs where
      qs: "acq' = (acq @ [p]) @ qs" "fs' = (fs @ [(p, c)]) @ map (\<lambda>p. (p, c)) qs"
          "set qs \<inter> fst ` set (fs @ [(p, c)]) = {}"
      by blast
    from True have "p \<notin> fst ` set fs" by (simp add: map_of_eq_None_iff)
    with qs have "acq' = acq @ (p # qs) \<and> fs' = fs @ map (\<lambda>p. (p, c)) (p # qs)
        \<and> set (p # qs) \<inter> fst ` set fs = {}"
      by auto
    then show ?thesis by blast
  qed
qed

lemma anyActive_iff:
  "anyActive now ps fs =
     (\<exists>p\<in>set ps. \<exists>e. readLockFile p fs = Some e \<and> of_int now \<le> expiresAt e)"
  by (induction ps) (auto split: option.splits)

lemma file_tryAcquireMultiple_failure_restores:
  assumes "\<not> fst (FileLockDriver_tryAcquireMultiple fl lockDir h now ks tok ttl fs)"
  shows "snd (FileLockDriver_tryAcquireMultiple fl lockDir h now ks tok ttl fs) = fs"
proof (cases "anyActive now (map (getLockPath lockDir h) ks) fs")
  case True
  then show ?thesis by (simp add: FileLockDriver_tryAcquireMultiple_def)
next
  case False
  define c where "c = Json \<lparr>val = tok, expiresAt = addMs fl now ttl, createdAt = now\<rparr>"
  obtain ok acq fs1 where r: "createAll (map (getLockPath lockDir h) ks) c [] fs = (ok, acq, fs1)"
    by (metis prod_cases3)
  from createAll_shape [OF r] have sh: "fs1 = fs @ map (\<lambda>p. (p, c)) acq" "set acq \<inter> fst ` set fs = {}"
    by auto
  have rb: "rollback acq fs1 = fs"
    unfolding rollback_filter sh(1) using sh(2) by (auto simp: filter_id_conv filter_empty_conv)
  from assms False r have "\<not> ok"
    by (auto simp: FileLockDriver_tryAcquireMultiple_def c_def)
  with False r rb show ?thesis
    by (simp add: FileLockDriver_tryAcquireMultiple_def c_def)
qed

lemma memory_tryAcquireMultiple_failure_creates_nothing:
  assumes "\<not> fst (MemoryLockDriver_tryAcquireMultiple fl now ks tok ttl locks)"
    and "Map_get (snd (MemoryLockDriver_tryAcquireMultiple fl now ks tok ttl locks)) k = Some r"
  shows "Map_get locks k = Some r \<and> \<not> (k \<in> set ks \<and> isExpired now r)"
  using assms
  by (auto simp: MemoryLockDriver_tryAcquireMultiple_def Let_def deleteExpired_get isExpired_def
      split: if_splits option.splits)

lemma anyExists_iff: "anyExists srv now ks db = (\<exists>k\<in>set ks. EXISTS srv now k db)"
  by (induction ks) auto

lemma getLockPath_b: "getLockPath ''/locks'' (\<lambda>k. []) ''b'' = ''/locks/b.lock''"
  by (simp add: getLockPath_def sanitizeChar_def)

text \<open>
  Claim C4.  When one of the keys holds a record that is not expired,
  \<^verbatim>\<open>tryAcquireMultiple\<close> of each of the four drivers returns \<^verbatim>\<open>false\<close> and creates
  nothing.  Memory driver: the holder's record stays, and every record found in the
  map afterwards is a record the map held before the call (the call only drops expired
  records of the requested keys), so no other key of the list has gained a record.
  File driver: the check loop finds the live file before anything is written, and the
  directory is unchanged; moreover every call that returns \<^verbatim>\<open>false\<close>, whatever the
  reason, leaves the directory unchanged, since the files the create loop wrote are
  rolled back.  SQLite driver: the count of live rows is positive, so no \<^verbatim>\<open>INSERT\<close>
  runs; the holder's row stays and every row of the table afterwards was in it before
  and is not an expired row of a requested key.  Redis driver: the script finds the
  held key with \<^verbatim>\<open>EXISTS\<close> and returns 0 before any \<^verbatim>\<open>SET\<close>, so the server's data is
  unchanged.
\<close>

theorem tryAcquireMultiple_all_or_nothing:
  assumes "b \<in> set keys"
  shows
    "(\<forall>e. Map_get locks b = Some e \<and> \<not> isExpired now e \<longrightarrow>
        \<not> fst (MemoryLockDriver_tryAcquireMultiple fl now keys tok ttl locks)
      \<and> Map_get (snd (MemoryLockDriver_tryAcquireMultiple fl now keys tok ttl locks)) b = Some e
      \<and> (\<forall>k r. Map_get (snd (MemoryLockDriver_tryAcquireMultiple fl now keys tok ttl locks)) k = Some r
            \<longrightarrow> Map_get locks k = Some r \<and> \<not> (k \<in> set keys \<and> isExpired now r)))
   \<and> (\<forall>e. readLockFile (getLockPath lockDir h b) fs = Some e \<and> \<not> isExpired now e \<longrightarrow>
        FileLockDriver_tryAcquireMultiple fl lockDir h now keys tok ttl fs = (False, fs))
   \<and> (\<not> fst (FileLockDriver_tryAcquireMultiple fl lockDir h now keys tok ttl fs) \<longrightarrow>
        snd (FileLockDriver_tryAcquireMultiple fl lockDir h now keys tok ttl fs) = fs)
   \<and> (\<forall>e. (b, e) \<in> set rows \<and> \<not> isExpired now e \<longrightarrow>
        fst (SQLiteLockDriver_tryAcquireMultiple fl now keys tok ttl rows) = Inr False
      \<and> (b, e) \<in> set (snd (SQLiteLockDriver_tryAcquireMultiple fl now keys tok ttl rows))
      \<and> (\<forall>k r. (k, r) \<in> set (snd (SQLiteLockDriver_tryAcquireMultiple fl now keys tok ttl rows))
            \<longrightarrow> (k, r) \<in> set rows \<and> \<not> (k \<in> set keys \<and> isExpired now r)))
   \<and> (EXISTS srv now b db \<longrightarrow>
        RedisLockDriver_tryAcquireMultiple srv now keys tok ttl db = (Inr False, db))"
proof (intro conjI allI impI)
  fix e
  assume live: "Map_get locks b = Some e \<and> \<not> isExpired now e"
  then have kept: "Map_get (deleteExpired now keys locks) b = Some e"
    by (simp add: deleteExpired_get isExpired_def)
  with assms have held: "anyLocked keys (deleteExpired now keys locks)"
    by (auto simp: anyLocked_iff)
  then show no: "\<not> fst (MemoryLockDriver_tryAcquireMultiple fl now keys tok ttl locks)"
    by (simp add: MemoryLockDriver_tryAcquireMultiple_def)
  from held kept
  show "Map_get (snd (MemoryLockDriver_tryAcquireMultiple fl now keys tok ttl locks)) b = Some e"
    by (simp add: MemoryLockDriver_tryAcquireMultiple_def)
  fix k r
  assume "Map_get (snd (MemoryLockDriver_tryAcquireMultiple fl now keys tok ttl locks)) k = Some r"
  with no show "Map_get locks k = Some r" and "\<not> (k \<in> set keys \<and> isExpired now r)"
    using memory_tryAcquireMultiple_failure_creates_nothing by blast+
next
  fix e
  assume "readLockFile (getLockPath lockDir h b) fs = Some e \<and> \<not> isExpired now e"
  then have "readLockFile (getLockPath lockDir h b) fs = Some e" "of_int now \<le> expiresAt e"
    by (auto simp: isExpired_def)
  with assms have "anyActive now (map (getLockPath lockDir h) keys) fs"
    unfolding anyActive_iff by (intro bexI [of _ "getLockPath lockDir h b"]) auto
  then show "FileLockDriver_tryAcquireMultiple fl lockDir h now keys tok ttl fs = (False, fs)"
    by (simp add: FileLockDriver_tryAcquireMultiple_def)
next
  assume "\<not> fst (FileLockDriver_tryAcquireMultiple fl lockDir h now keys tok ttl fs)"
  then show "snd (FileLockDriver_tryAcquireMultiple fl lockDir h now keys tok ttl fs) = fs"
    by (rule file_tryAcquireMultiple_failure_restores)
next
  fix e
  assume row: "(b, e) \<in> set rows \<and> \<not> isExpired now e"
  with assms have kept: "(b, e) \<in> set (deleteExpiredRows now keys rows)"
    by (auto simp: deleteExpiredRows_def isExpired_def)
  with row assms
  have "(b, e) \<in> set (filter (\<lambda>row. fst row \<in> set keys \<and> expiresAt (snd row) \<ge> of_int now)
      (deleteExpiredRows now keys rows))"
    by (auto simp: isExpired_def)
  then have "filter (\<lambda>row. fst row \<in> set keys \<and> expiresAt (snd row) \<ge> of_int now)
      (deleteExpiredRows now keys rows) \<noteq> []"
    by (metis empty_iff empty_set)
  then have pos: "countActiveRows now keys (deleteExpiredRows now keys rows) > 0"
    by (simp add: countActiveRows_def)
  then show "fst (SQLiteLockDriver_tryAcquireMultiple fl now keys tok ttl rows) = Inr False"
    by (simp add: SQLiteLockDriver_tryAcquireMultiple_def)
  from pos have after: "snd (SQLiteLockDriver_tryAcquireMultiple fl now keys tok ttl rows)
      = deleteExpiredRows now keys rows"
    by (simp add: SQLiteLockDriver_tryAcquireMultiple_def)
  from kept show "(b, e) \<in> set (snd (SQLiteLockDriver_tryAcquireMultiple fl now keys tok ttl rows))"
    by (simp add: after)
  fix k r
  assume "(k, r) \<in> set (snd (SQLiteLockDriver_tryAcquireMultiple fl now keys tok ttl rows))"
  then show "(k, r) \<in> set rows" and "\<not> (k \<in> set keys \<and> isExpired now r)"
    by (auto simp: after deleteExpiredRows_def isExpired_def)
next
  assume "EXISTS srv now b db"
  with assms have "anyExists srv now keys db"
    by (auto simp: anyExists_iff)
  then show "RedisLockDriver_tryAcquireMultiple srv now keys tok ttl db = (Inr False, db)"
    by (simp add: RedisLockDriver_tryAcquireMultiple_def)
qed

text \<open>
  The keys \<open>a, b, c\<close> with \<open>b\<close> held until 30000, at time 2000, on the four drivers
  (the memory driver and the table also hold an expired record of \<open>a\<close>, which the
  call sweeps).
\<close>

theorem tryAcquireMultiple_all_or_nothing_witness:
  "MemoryLockDriver_tryAcquireMultiple (\<lambda>x. x) 2000 [''a'', ''b'', ''c''] ''t2'' 15
       [(''a'', \<lparr>val = ''t0'', expiresAt = 1000, createdAt = 0\<rparr>),
        (''b'', \<lparr>val = ''t1'', expiresAt = 30000, createdAt = 0\<rparr>)]
     = (False, [(''b'', \<lparr>val = ''t1'', expiresAt = 30000, createdAt = 0\<rparr>)])
   \<and> FileLockDriver_tryAcquireMultiple (\<lambda>x. x) ''/locks'' (\<lambda>k. []) 2000 [''a'', ''b'', ''c'']
       ''t2'' 15
       [(''/locks/b.lock'', Json \<lparr>val = ''t1'', expiresAt = 30000, createdAt = 0\<rparr>)]
     = (False, [(''/locks/b.lock'', Json \<lparr>val = ''t1'', expiresAt = 30000, createdAt = 0\<rparr>)])
   \<and> SQLiteLockDriver_tryAcquireMultiple (\<lambda>x. x) 2000 [''a'', ''b'', ''c''] ''t2'' 15
       [(''a'', \<lparr>val = ''t0'', expiresAt = 1000, createdAt = 0\<rparr>),
        (''b'', \<lparr>val = ''t1'', expiresAt = 30000, createdAt = 0\<rparr>)]
     = (Inr False, [(''b'', \<lparr>val = ''t1'', expiresAt = 30000, createdAt = 0\<rparr>)])
   \<and> RedisLockDriver_tryAcquireMultiple exampleRedis 2000 [''a'', ''b'', ''c''] ''t2'' 15
       [(''b'', (''t1'', 30000))]
     = (Inr False, [(''b'', (''t1'', 30000))])"
proof -
  let ?e = "\<lparr>val = ''t1'', expiresAt = 30000, createdAt = 0\<rparr>"
  let ?locks = "[(''a'', \<lparr>val = ''t0'', expiresAt = 1000, createdAt = 0\<rparr>), (''b'', ?e)]"
  have b: "''b'' \<in> set [''a'', ''b'', ''c'']" by simp
  have live: "\<not> isExpired 2000 ?e"
    by (simp add: isExpired_def)
  have rd: "readLockFile (getLockPath ''/locks'' (\<lambda>k. []) ''b'') [(''/locks/b.lock'', Json ?e)]
      = Some ?e"
    by (simp add: getLockPath_b readLockFile_def)
  have row: "(''b'', ?e) \<in> set ?locks" by simp
  have ex: "EXISTS exampleRedis 2000 ''b'' [(''b'', (''t1'', 30000))]"
    by (simp add: exampleRedis_def)
  have mem: "MemoryLockDriver_tryAcquireMultiple (\<lambda>x. x) 2000 [''a'', ''b'', ''c''] ''t2'' 15 ?locks
     = (False, [(''b'', ?e)])"
    by (simp add: MemoryLockDriver_tryAcquireMultiple_def)
  have sql: "SQLiteLockDriver_tryAcquireMultiple (\<lambda>x. x) 2000 [''a'', ''b'', ''c''] ''t2'' 15 ?locks
     = (Inr False, [(''b'', ?e)])"
    by (simp add: SQLiteLockDriver_tryAcquireMultiple_def deleteExpiredRows_def
        countActiveRows_def)
  from tryAcquireMultiple_all_or_nothing [OF b, of ?locks 2000 "\<lambda>x. x" "''t2''" 15
      "''/locks''" "\<lambda>k. []" "[(''/locks/b.lock'', Json ?e)]" ?locks exampleRedis
      "[(''b'', (''t1'', 30000))]"]
    live rd row ex
  have "FileLockDriver_tryAcquireMultiple (\<lambda>x. x) ''/locks'' (\<lambda>k. []) 2000 [''a'', ''b'', ''c'']
       ''t2'' 15 [(''/locks/b.lock'', Json ?e)] = (False, [(''/locks/b.lock'', Json ?e)])
    \<and> RedisLockDriver_tryAcquireMultiple exampleRedis 2000 [''a'', ''b'', ''c''] ''t2'' 15
       [(''b'', (''t1'', 30000))] = (Inr False, [(''b'', (''t1'', 30000))])"
    by blast
  with mem sql show ?thesis by simp
qed

section \<open>Lock information\<close>

lemma memory_getLockInfo_live_only:
  "fst (MemoryLockDriver_getLockInfo now k locks) =
     (case Map_get locks k of
        None \<Rightarrow> None
      | Some e \<Rightarrow> if isExpired now e then None
                  else Some \<lparr>val = val e, expiresAt = expiresAt e, createdAt = createdAt e, key = k\<rparr>)"
  by (simp add: MemoryLockDriver_getLockInfo_def isExpired_def split: option.splits)


text \<open>
  Claim C8 fails on the file driver.  Its \<^verbatim>\<open>getLockInfo\<close> never reads the clock: for
  a lock file that expired at 1000 it still returns the record at time 2000, where the
  same driver's \<^verbatim>\<open>exists\<close> answers \<^verbatim>\<open>false\<close> and the memory driver's
  \<^verbatim>\<open>getLockInfo\<close> returns \<^verbatim>\<open>null\<close> (lemma \<open>memory_getLockInfo_live_only\<close>).
\<close>

theorem file_getLockInfo_returns_expired:
  "FileLockDriver_getLockInfo ''/locks'' (\<lambda>k. []) ''b''
       [(''/locks/b.lock'', Json \<lparr>val = ''t1'', expiresAt = 1000, createdAt = 0\<rparr>)]
     = Some \<lparr>val = ''t1'', expiresAt = 1000, createdAt = 0, key = ''b''\<rparr>
   \<and> isExpired 2000 \<lparr>val = ''t1'', expiresAt = 1000, createdAt = 0\<rparr>
   \<and> \<not> FileLockDriver_exists ''/locks'' (\<lambda>k. []) 2000 ''b''
       [(''/locks/b.lock'', Json \<lparr>val = ''t1'', expiresAt = 1000, createdAt = 0\<rparr>)]
   \<and> MemoryLockDriver_getLockInfo 2000 ''b''
       [(''b'', \<lparr>val = ''t1'', expiresAt = 1000, createdAt = 0\<rparr>)] = (None, [])"
  by (simp add: FileLockDriver_getLockInfo_def FileLockDriver_exists_def getLockPath_b
      readLockFile_def isExpired_def MemoryLockDriver_getLockInfo_def)


section \<open>Circuit breaker\<close>

text \<open>
  Claim C2.  \<^verbatim>\<open>getCircuitBreakerStatus(key).isOpen\<close> is the value of
  \<^verbatim>\<open>isCircuitOpen(key)\<close>, and it is \<^verbatim>\<open>true\<close> if and only if the failure map holds
  a record for the key whose count is at least the threshold and whose last failure
  is less than the reset time ago.  In particular, in the same state (no reset call,
  the record still present), once \<open>now - lastFailure\<close> has reached the reset time,
  \<^verbatim>\<open>isOpen\<close> is \<^verbatim>\<open>false\<close>.
\<close>

theorem circuit_open_iff:
  "(isOpen (getCircuitBreakerStatus now k st) \<longleftrightarrow>
      (\<exists>f. Map_get (lockFailures st) k = Some f
         \<and> circuitBreakerThreshold st \<le> count f
         \<and> now - lastFailure f < circuitBreakerResetTime st))
   \<and> isOpen (getCircuitBreakerStatus now k st) = isCircuitOpen now k st
   \<and> ((\<forall>f. Map_get (lockFailures st) k = Some f
            \<longrightarrow> circuitBreakerResetTime st \<le> now - lastFailure f)
        \<longrightarrow> \<not> isOpen (getCircuitBreakerStatus now k st))"
  by (auto simp: getCircuitBreakerStatus_def isCircuitOpen_def Let_def split: option.splits)

text \<open>
  Threshold 5 and reset time 30000: a record with five failures, the last at 900, is
  open at 1000 and closed at 30900; with four failures the breaker is closed.
\<close>

theorem circuit_open_iff_witness:
  "isOpen (getCircuitBreakerStatus 1000 ''k''
     \<lparr>driver = (), lockFailures = [(''k'', \<lparr>count = 5, lastFailure = 900\<rparr>)],
      circuitBreakerThreshold = 5, circuitBreakerResetTime = 30000,
      maxFailureEntries = 1000, lastCleanup = 0\<rparr>)
   \<and> \<not> isOpen (getCircuitBreakerStatus 30900 ''k''
     \<lparr>driver = (), lockFailures = [(''k'', \<lparr>count = 5, lastFailure = 900\<rparr>)],
      circuitBreakerThreshold = 5, circuitBreakerResetTime = 30000,
      maxFailureEntries = 1000, lastCleanup = 0\<rparr>)
   \<and> \<not> isOpen (getCircuitBreakerStatus 1000 ''k''
     \<lparr>driver = (), lockFailures = [(''k'', \<lparr>count = 4, lastFailure = 900\<rparr>)],
      circuitBreakerThreshold = 5, circuitBreakerResetTime = 30000,
      maxFailureEntries = 1000, lastCleanup = 0\<rparr>)"
  using circuit_open_iff [of 1000 "''k''"
      "\<lparr>driver = (), lockFailures = [(''k'', \<lparr>count = 5, lastFailure = 900\<rparr>)],
        circuitBreakerThreshold = 5, circuitBreakerResetTime = 30000,
        maxFailureEntries = 1000, lastCleanup = 0\<rparr>"]
    circuit_open_iff [of 30900 "''k''"
      "\<lparr>driver = (), lockFailures = [(''k'', \<lparr>count = 5, lastFailure = 900\<rparr>)],
        circuitBreakerThreshold = 5, circuitBreakerResetTime = 30000,
        maxFailureEntries = 1000, lastCleanup = 0\<rparr>"]
    circuit_open_iff [of 1000 "''k''"
      "\<lparr>driver = (), lockFailures = [(''k'', \<lparr>count = 4, lastFailure = 900\<rparr>)],
        circuitBreakerThreshold = 5, circuitBreakerResetTime = 30000,
        maxFailureEntries = 1000, lastCleanup = 0\<rparr>"]
  by simp

section \<open>The failure map is bounded\<close>

text \<open>
  Every block of \<^verbatim>\<open>recordLockFailure\<close> keeps the keys of the map distinct.  The sweep
  never adds an entry; deleting the first 100 keys of a map with distinct keys drops
  its first 100 entries; the update adds at most one entry.
\<close>

lemma length_update:
  "length (AList.update k v m) = (if map_of m k = None then Suc (length m) else length m)"
  by (induction m) auto

lemma length_sweepEntries: "length (sweepEntries now rt es m) \<le> length m"
proof (induction es arbitrary: m)
  case Nil
  then show ?case by simp
next
  case (Cons e es)
  have "length (sweepEntries now rt es (Map_delete m (fst e))) \<le> length (Map_delete m (fst e))"
    by (rule Cons.IH)
  also have "\<dots> \<le> length m" by (rule length_delete_le)
  finally show ?case using Cons.IH [of m] by simp
qed

lemma distinct_sweepEntries:
  "distinct (Map_keys m) \<Longrightarrow> distinct (Map_keys (sweepEntries now rt es m))"
  by (induction es arbitrary: m) (simp_all add: distinct_delete)

lemma deleteKeys_take:
  "distinct (Map_keys m) \<Longrightarrow> deleteKeys (take n (Map_keys m)) m = drop n m"
proof (induction m arbitrary: n)
  case Nil
  then show ?case by simp
next
  case (Cons e m)
  show ?case
  proof (cases n)
    case 0
    then show ?thesis by simp
  next
    case (Suc n')
    from Cons.prems have "fst e \<notin> fst ` set m" and d: "distinct (Map_keys m)" by auto
    then have "Map_delete (e # m) (fst e) = m"
      by (cases e) simp
    with Suc Cons.IH [OF d, of n'] show ?thesis by simp
  qed
qed

lemma maybeCleanup_props:
  "length (lockFailures (maybeCleanup now st)) \<le> length (lockFailures st)"
  "distinct (Map_keys (lockFailures st)) \<Longrightarrow> distinct (Map_keys (lockFailures (maybeCleanup now st)))"
  "maxFailureEntries (maybeCleanup now st) = maxFailureEntries st"
  by (simp_all add: maybeCleanup_def cleanupFailureRecords_def length_sweepEntries
      distinct_sweepEntries)

lemma evictOldest_drop:
  assumes "distinct (Map_keys (lockFailures st))"
    and "maxFailureEntries st \<le> Map_size (lockFailures st)"
  shows "evictOldest st = st\<lparr>lockFailures := drop 100 (lockFailures st)\<rparr>"
  using assms by (simp add: evictOldest_def deleteKeys_take)

lemma evictOldest_props:
  assumes "distinct (Map_keys (lockFailures st))" and "1 \<le> maxFailureEntries st"
    and "Map_size (lockFailures st) \<le> maxFailureEntries st"
  shows "Map_size (lockFailures (evictOldest st)) < maxFailureEntries st"
    and "distinct (Map_keys (lockFailures (evictOldest st)))"
    and "maxFailureEntries (evictOldest st) = maxFailureEntries st"
proof -
  show "Map_size (lockFailures (evictOldest st)) < maxFailureEntries st"
  proof (cases "maxFailureEntries st \<le> Map_size (lockFailures st)")
    case True
    with assms show ?thesis by (simp add: evictOldest_drop)
  next
    case False
    then show ?thesis by (simp add: evictOldest_def)
  qed
  show "distinct (Map_keys (lockFailures (evictOldest st)))"
    using assms(1) by (auto simp: evictOldest_def deleteKeys_take drop_map [symmetric])
  show "maxFailureEntries (evictOldest st) = maxFailureEntries st"
    by (simp add: evictOldest_def)
qed

lemma upsertFailure_props:
  "length (lockFailures (upsertFailure now k st)) \<le> Suc (length (lockFailures st))"
  "distinct (Map_keys (lockFailures st)) \<Longrightarrow> distinct (Map_keys (lockFailures (upsertFailure now k st)))"
  "maxFailureEntries (upsertFailure now k st) = maxFailureEntries st"
  by (auto simp: upsertFailure_def length_update distinct_update split: option.splits)

lemma recordLockFailure_invariant:
  assumes "1 \<le> maxFailureEntries st" and "distinct (Map_keys (lockFailures st))"
    and "Map_size (lockFailures st) \<le> maxFailureEntries st"
  shows "1 \<le> maxFailureEntries (recordLockFailure now k st)
    \<and> distinct (Map_keys (lockFailures (recordLockFailure now k st)))
    \<and> Map_size (lockFailures (recordLockFailure now k st))
         \<le> maxFailureEntries (recordLockFailure now k st)
    \<and> maxFailureEntries (recordLockFailure now k st) = maxFailureEntries st"
proof -
  let ?s1 = "maybeCleanup now st"
  let ?s2 = "evictOldest ?s1"
  have d1: "distinct (Map_keys (lockFailures ?s1))" and m1: "maxFailureEntries ?s1 = maxFailureEntries st"
    and l1: "Map_size (lockFailures ?s1) \<le> maxFailureEntries ?s1"
    using assms maybeCleanup_props [where now = now and st = st] by auto
  from evictOldest_props [OF d1 _ l1] assms(1) m1
  have l2: "Map_size (lockFailures ?s2) < maxFailureEntries st"
    and d2: "distinct (Map_keys (lockFailures ?s2))"
    and m2: "maxFailureEntries ?s2 = maxFailureEntries st"
    by auto
  from upsertFailure_props [where now = now and k = k and st = ?s2] d2 l2 m2 assms(1) show ?thesis
    by (auto simp: recordLockFailure_def)
qed

lemma recordLockFailures_invariant:
  assumes "1 \<le> maxFailureEntries st" and "distinct (Map_keys (lockFailures st))"
    and "Map_size (lockFailures st) \<le> maxFailureEntries st"
  shows "Map_size (lockFailures (recordLockFailures calls st)) \<le> maxFailureEntries st
    \<and> distinct (Map_keys (lockFailures (recordLockFailures calls st)))"
  using assms
proof (induction calls arbitrary: st)
  case Nil
  then show ?case by simp
next
  case (Cons c cs)
  from recordLockFailure_invariant [OF Cons.prems, of "fst c" "snd c"]
  show ?case using Cons.IH [of "recordLockFailure (fst c) (snd c) st"] by simp
qed

text \<open>
  Claim C7.  Take a state whose failure map has distinct keys and at most
  \<^verbatim>\<open>maxFailureEntries\<close> entries, with \<^verbatim>\<open>maxFailureEntries\<close> at least 1 (the state a
  constructor leaves, with its empty map, is one).  After any run of
  \<^verbatim>\<open>recordLockFailure\<close> calls the map holds at most \<^verbatim>\<open>maxFailureEntries\<close> entries.
  Within one call: when the map, after the optional sweep, has reached the maximum,
  its first 100 entries in insertion order (all of them when there are fewer) are
  removed before the key's record is updated or inserted; below the maximum nothing
  is evicted.
\<close>

theorem failure_map_bounded:
  assumes "1 \<le> maxFailureEntries st"
    and "distinct (Map_keys (lockFailures st))"
    and "Map_size (lockFailures st) \<le> maxFailureEntries st"
  shows "Map_size (lockFailures (recordLockFailures calls st)) \<le> maxFailureEntries st
    \<and> (maxFailureEntries st \<le> Map_size (lockFailures (maybeCleanup now st)) \<longrightarrow>
          recordLockFailure now k st =
            upsertFailure now k
              ((maybeCleanup now st)\<lparr>lockFailures := drop 100 (lockFailures (maybeCleanup now st))\<rparr>))
    \<and> (Map_size (lockFailures (maybeCleanup now st)) < maxFailureEntries st \<longrightarrow>
          recordLockFailure now k st = upsertFailure now k (maybeCleanup now st))"
proof (intro conjI impI)
  show "Map_size (lockFailures (recordLockFailures calls st)) \<le> maxFailureEntries st"
    using recordLockFailures_invariant [OF assms] by simp
next
  assume full: "maxFailureEntries st \<le> Map_size (lockFailures (maybeCleanup now st))"
  have "evictOldest (maybeCleanup now st) =
      (maybeCleanup now st)\<lparr>lockFailures := drop 100 (lockFailures (maybeCleanup now st))\<rparr>"
    using full assms(2) maybeCleanup_props [where now = now and st = st] by (intro evictOldest_drop) auto
  then show "recordLockFailure now k st =
      upsertFailure now k
        ((maybeCleanup now st)\<lparr>lockFailures := drop 100 (lockFailures (maybeCleanup now st))\<rparr>)"
    by (simp add: recordLockFailure_def)
next
  assume "Map_size (lockFailures (maybeCleanup now st)) < maxFailureEntries st"
  then show "recordLockFailure now k st = upsertFailure now k (maybeCleanup now st)"
    using maybeCleanup_props(3) [where now = now and st = st] by (simp add: recordLockFailure_def evictOldest_def)
qed

text \<open>
  A fresh instance with \<^verbatim>\<open>maxFailureEntries: 2\<close> and failures on three keys: the
  third call finds the map full, evicts both entries and inserts its own.
\<close>

theorem failure_map_bounded_witness:
  "1 \<le> maxFailureEntries (AtomicLock_new 0 () (noOptions\<lparr>optMaxFailureEntries := Some 2\<rparr>))
   \<and> lockFailures (AtomicLock_new 0 () (noOptions\<lparr>optMaxFailureEntries := Some 2\<rparr>)) = []
   \<and> lockFailures (recordLockFailures [(10, ''k1''), (20, ''k2''), (30, ''k3'')]
        (AtomicLock_new 0 () (noOptions\<lparr>optMaxFailureEntries := Some 2\<rparr>)))
       = [(''k3'', \<lparr>count = 1, lastFailure = 30\<rparr>)]
   \<and> Map_size (lockFailures (recordLockFailures [(10, ''k1''), (20, ''k2''), (30, ''k3'')]
        (AtomicLock_new 0 () (noOptions\<lparr>optMaxFailureEntries := Some 2\<rparr>)))) \<le> 2"
proof -
  let ?S = "AtomicLock_new 0 () (noOptions\<lparr>optMaxFailureEntries := Some 2\<rparr>)"
  have new: "?S = \<lparr>driver = (), lockFailures = [], circuitBreakerThreshold = 5,
      circuitBreakerResetTime = 30000, maxFailureEntries = 2, lastCleanup = 0\<rparr>"
    by (simp add: AtomicLock_new_def noOptions_def)
  have h1: "1 \<le> maxFailureEntries ?S" by (simp add: new)
  have h2: "distinct (Map_keys (lockFailures ?S))" by (simp add: new)
  have h3: "Map_size (lockFailures ?S) \<le> maxFailureEntries ?S" by (simp add: new)
  have run: "lockFailures (recordLockFailures [(10, ''k1''), (20, ''k2''), (30, ''k3'')] ?S)
      = [(''k3'', \<lparr>count = 1, lastFailure = 30\<rparr>)]"
    by (simp add: new recordLockFailure_def maybeCleanup_def evictOldest_def upsertFailure_def)
  from failure_map_bounded [OF h1 h2 h3, of "[(10, ''k1''), (20, ''k2''), (30, ''k3'')]" 30 "''k3''"]
  have "Map_size (lockFailures (recordLockFailures [(10, ''k1''), (20, ''k2''), (30, ''k3'')] ?S))
      \<le> maxFailureEntries ?S"
    by blast
  with h1 run show ?thesis by (simp add: new)
qed

section \<open>Acquisition through the coordinator\<close>

lemma fresh_state:
  "AtomicLock_new 0 d noOptions =
     \<lparr>driver = d, lockFailures = [], circuitBreakerThreshold = 5,
      circuitBreakerResetTime = 30000, maxFailureEntries = 1000, lastCleanup = 0\<rparr>"
  by (simp add: AtomicLock_new_def noOptions_def)

lemma noOptions_expiry: "expiryInSeconds noOptions = None"
  by (simp add: noOptions_def)

text \<open>
  What \<^verbatim>\<open>recordLockFailure\<close> leaves under the key: the sweep and the eviction only
  delete, and the update then reads the key's record in the map they left.
\<close>

lemma sweepEntries_get:
  "Map_get (sweepEntries now rt es m) k =
     (if \<exists>e\<in>set es. fst e = k \<and> now - lastFailure (snd e) > rt then None else Map_get m k)"
  by (induction es arbitrary: m) (auto simp: delete_conv)

lemma deleteKeys_get:
  "Map_get (deleteKeys ks m) k = (if k \<in> set ks then None else Map_get m k)"
  by (induction ks arbitrary: m) (auto simp: delete_conv)

lemma maintenance_ignores_driver:
  "lockFailures (evictOldest (maybeCleanup now (st\<lparr>driver := d\<rparr>)))
     = lockFailures (evictOldest (maybeCleanup now st))"
  "circuitBreakerResetTime (evictOldest (maybeCleanup now st)) = circuitBreakerResetTime st"
  by (simp_all add: evictOldest_def maybeCleanup_def cleanupFailureRecords_def)

lemma maintenance_creates_nothing:
  assumes "Map_get (lockFailures st) k = None"
  shows "Map_get (lockFailures (evictOldest (maybeCleanup now st))) k = None"
  using assms
  by (simp add: evictOldest_def maybeCleanup_def cleanupFailureRecords_def sweepEntries_get
      deleteKeys_get)

lemma maintenance_keeps_fresh:
  assumes "distinct (Map_keys (lockFailures st))"
    and "Map_get (lockFailures st) k = Some f"
    and "now - lastFailure f \<le> circuitBreakerResetTime st"
    and "Map_size (lockFailures st) < maxFailureEntries st"
  shows "Map_get (lockFailures (evictOldest (maybeCleanup now st))) k = Some f"
proof -
  have only: "snd e = f" if "e \<in> set (lockFailures st)" and "fst e = k" for e
  proof -
    from that have "(k, snd e) \<in> set (lockFailures st)" by (metis prod.collapse)
    with assms(1) have "Map_get (lockFailures st) k = Some (snd e)" by simp
    with assms(2) show ?thesis by simp
  qed
  have swept: "Map_get (lockFailures (maybeCleanup now st)) k = Some f"
    using assms(2,3) only
    by (auto simp: maybeCleanup_def cleanupFailureRecords_def sweepEntries_get)
  have "length (lockFailures (maybeCleanup now st)) \<le> length (lockFailures st)"
    and "maxFailureEntries (maybeCleanup now st) = maxFailureEntries st"
    using maybeCleanup_props [where now = now and st = st] by auto
  with assms(4)
  have "Map_size (lockFailures (maybeCleanup now st)) < maxFailureEntries (maybeCleanup now st)"
    by linarith
  then have "evictOldest (maybeCleanup now st) = maybeCleanup now st"
    by (simp add: evictOldest_def)
  with swept show ?thesis by simp
qed

lemma recordLockFailure_count:
  "Map_get (lockFailures (recordLockFailure now k st)) k =
     Some \<lparr>count =
             (case Map_get (lockFailures (evictOldest (maybeCleanup now st))) k of
                None \<Rightarrow> 1
              | Some f \<Rightarrow>
                  if now - lastFailure f > circuitBreakerResetTime st then 1 else count f + 1),
           lastFailure = now\<rparr>"
  by (auto simp: recordLockFailure_def upsertFailure_def update_conv' maintenance_ignores_driver
      split: option.splits)

text \<open>
  Claim C1, as amended.  For a key whose circuit breaker is closed, \<^verbatim>\<open>tryAcquire\<close>
  never throws.  When the driver returns \<^verbatim>\<open>true\<close>, the failure record of the key is
  deleted and the minted token is returned.  When the driver returns \<^verbatim>\<open>false\<close>
  (the key is held), the result is \<^verbatim>\<open>null\<close> and the failure map is left as it was.
  When the driver throws, the result is \<^verbatim>\<open>null\<close> and \<^verbatim>\<open>recordLockFailure\<close> runs
  for the key: afterwards the key's record is stamped with the current time, and its
  count is 1 when the sweep and the eviction that run first leave no record of the
  key or leave one whose reset window has passed, and one more than that record's
  count otherwise.  In particular the record is created with count 1 when the key had
  none, and its count goes up by one when the key had a record within its reset
  window and the map was below its maximum.
\<close>

theorem tryAcquire_never_throws:
  assumes "\<not> isCircuitOpen now k st"
  shows
    "(\<exists>r. fst (AtomicLock_tryAcquire drv now tok k options st) = Inr r)
   \<and> (\<forall>d1. tryAcquire drv now k tok
              (case expiryInSeconds options of Some n \<Rightarrow> n | None \<Rightarrow> 10) (driver st)
            = (Inr True, d1) \<longrightarrow>
          AtomicLock_tryAcquire drv now tok k options st =
            (Inr (Some tok), st\<lparr>driver := d1, lockFailures := Map_delete (lockFailures st) k\<rparr>)
        \<and> Map_get (lockFailures (snd (AtomicLock_tryAcquire drv now tok k options st))) k = None)
   \<and> (\<forall>d1. tryAcquire drv now k tok
              (case expiryInSeconds options of Some n \<Rightarrow> n | None \<Rightarrow> 10) (driver st)
            = (Inr False, d1) \<longrightarrow>
          AtomicLock_tryAcquire drv now tok k options st = (Inr None, st\<lparr>driver := d1\<rparr>)
        \<and> lockFailures (snd (AtomicLock_tryAcquire drv now tok k options st)) = lockFailures st)
   \<and> (\<forall>err d1. tryAcquire drv now k tok
              (case expiryInSeconds options of Some n \<Rightarrow> n | None \<Rightarrow> 10) (driver st)
            = (Inl err, d1) \<longrightarrow>
          AtomicLock_tryAcquire drv now tok k options st =
            (Inr None, recordLockFailure now k (st\<lparr>driver := d1\<rparr>))
        \<and> Map_get (lockFailures (snd (AtomicLock_tryAcquire drv now tok k options st))) k
            = Some \<lparr>count =
                      (case Map_get (lockFailures (evictOldest (maybeCleanup now st))) k of
                         None \<Rightarrow> 1
                       | Some f \<Rightarrow>
                           if now - lastFailure f > circuitBreakerResetTime st then 1
                           else count f + 1),
                    lastFailure = now\<rparr>
        \<and> (Map_get (lockFailures st) k = None \<longrightarrow>
              Map_get (lockFailures (snd (AtomicLock_tryAcquire drv now tok k options st))) k
                = Some \<lparr>count = 1, lastFailure = now\<rparr>)
        \<and> (\<forall>f. distinct (Map_keys (lockFailures st))
                \<and> Map_get (lockFailures st) k = Some f
                \<and> now - lastFailure f \<le> circuitBreakerResetTime st
                \<and> Map_size (lockFailures st) < maxFailureEntries st \<longrightarrow>
              Map_get (lockFailures (snd (AtomicLock_tryAcquire drv now tok k options st))) k
                = Some \<lparr>count = count f + 1, lastFailure = now\<rparr>))"
proof (intro conjI allI impI)
  show "\<exists>r. fst (AtomicLock_tryAcquire drv now tok k options st) = Inr r"
    by (auto simp: AtomicLock_tryAcquire_def Let_def split: prod.splits sum.splits)
next
  fix d1
  assume "tryAcquire drv now k tok
      (case expiryInSeconds options of Some n \<Rightarrow> n | None \<Rightarrow> 10) (driver st) = (Inr True, d1)"
  with assms show granted: "AtomicLock_tryAcquire drv now tok k options st =
      (Inr (Some tok), st\<lparr>driver := d1, lockFailures := Map_delete (lockFailures st) k\<rparr>)"
    by (simp add: AtomicLock_tryAcquire_def)
  show "Map_get (lockFailures (snd (AtomicLock_tryAcquire drv now tok k options st))) k = None"
    by (simp add: granted delete_conv')
next
  fix d1
  assume "tryAcquire drv now k tok
      (case expiryInSeconds options of Some n \<Rightarrow> n | None \<Rightarrow> 10) (driver st) = (Inr False, d1)"
  with assms show held: "AtomicLock_tryAcquire drv now tok k options st
      = (Inr None, st\<lparr>driver := d1\<rparr>)"
    by (simp add: AtomicLock_tryAcquire_def)
  show "lockFailures (snd (AtomicLock_tryAcquire drv now tok k options st)) = lockFailures st"
    by (simp add: held)
next
  fix err d1
  assume "tryAcquire drv now k tok
      (case expiryInSeconds options of Some n \<Rightarrow> n | None \<Rightarrow> 10) (driver st) = (Inl err, d1)"
  with assms show thrown: "AtomicLock_tryAcquire drv now tok k options st =
      (Inr None, recordLockFailure now k (st\<lparr>driver := d1\<rparr>))"
    by (simp add: AtomicLock_tryAcquire_def)
  have cnt: "Map_get (lockFailures (recordLockFailure now k (st\<lparr>driver := d1\<rparr>))) k
      = Some \<lparr>count =
                (case Map_get (lockFailures (evictOldest (maybeCleanup now st))) k of
                   None \<Rightarrow> 1
                 | Some f \<Rightarrow>
                     if now - lastFailure f > circuitBreakerResetTime st then 1
                     else count f + 1),
              lastFailure = now\<rparr>"
    using recordLockFailure_count [of now k "st\<lparr>driver := d1\<rparr>"]
    by (simp add: maintenance_ignores_driver cong: option.case_cong)
  then show exact: "Map_get (lockFailures (snd (AtomicLock_tryAcquire drv now tok k options st))) k
      = Some \<lparr>count =
                (case Map_get (lockFailures (evictOldest (maybeCleanup now st))) k of
                   None \<Rightarrow> 1
                 | Some f \<Rightarrow>
                     if now - lastFailure f > circuitBreakerResetTime st then 1
                     else count f + 1),
              lastFailure = now\<rparr>"
    by (simp add: thrown)
  show "Map_get (lockFailures (snd (AtomicLock_tryAcquire drv now tok k options st))) k
      = Some \<lparr>count = 1, lastFailure = now\<rparr>"
    if "Map_get (lockFailures st) k = None"
    using exact maintenance_creates_nothing [OF that, of now] by simp
  show "Map_get (lockFailures (snd (AtomicLock_tryAcquire drv now tok k options st))) k
      = Some \<lparr>count = count f + 1, lastFailure = now\<rparr>"
    if "distinct (Map_keys (lockFailures st))
        \<and> Map_get (lockFailures st) k = Some f
        \<and> now - lastFailure f \<le> circuitBreakerResetTime st
        \<and> Map_size (lockFailures st) < maxFailureEntries st" for f
  proof -
    from that have "Map_get (lockFailures (evictOldest (maybeCleanup now st))) k = Some f"
      by (intro maintenance_keeps_fresh) auto
    with exact that show ?thesis by simp
  qed
qed

text \<open>
  The test suite's runs: on a fresh instance a driver that rejects with
  ``Driver error'' leaves one failure on record and a second rejection makes it two;
  a driver that grants returns the token.
\<close>

theorem tryAcquire_never_throws_witness:
  "\<not> isCircuitOpen 5 ''test-key'' (AtomicLock_new 0 ([] :: driver_call list) noOptions)
   \<and> AtomicLock_tryAcquire (mockDriver (Inl (Error ''Driver error'')) (Inr True)) 5
        ''mock-uuid-123'' ''test-key'' noOptions (AtomicLock_new 0 [] noOptions)
     = (Inr None,
        \<lparr>driver = [TryAcquireCall ''test-key'' ''mock-uuid-123'' 10],
         lockFailures = [(''test-key'', \<lparr>count = 1, lastFailure = 5\<rparr>)],
         circuitBreakerThreshold = 5, circuitBreakerResetTime = 30000,
         maxFailureEntries = 1000, lastCleanup = 0\<rparr>)
   \<and> Map_get (lockFailures (snd
        (AtomicLock_tryAcquire (mockDriver (Inl (Error ''Driver error'')) (Inr True)) 7
           ''mock-uuid-123'' ''test-key'' noOptions
           \<lparr>driver = [TryAcquireCall ''test-key'' ''mock-uuid-123'' 10],
            lockFailures = [(''test-key'', \<lparr>count = 1, lastFailure = 5\<rparr>)],
            circuitBreakerThreshold = 5, circuitBreakerResetTime = 30000,
            maxFailureEntries = 1000, lastCleanup = 0\<rparr>))) ''test-key''
     = Some \<lparr>count = 2, lastFailure = 7\<rparr>
   \<and> AtomicLock_tryAcquire (mockDriver (Inr True) (Inr True)) 5
        ''mock-uuid-123'' ''test-key'' noOptions (AtomicLock_new 0 [] noOptions)
     = (Inr (Some ''mock-uuid-123''),
        \<lparr>driver = [TryAcquireCall ''test-key'' ''mock-uuid-123'' 10],
         lockFailures = [],
         circuitBreakerThreshold = 5, circuitBreakerResetTime = 30000,
         maxFailureEntries = 1000, lastCleanup = 0\<rparr>)"
proof -
  let ?S = "AtomicLock_new 0 ([] :: driver_call list) noOptions"
  let ?S1 = "\<lparr>driver = [TryAcquireCall ''test-key'' ''mock-uuid-123'' 10],
      lockFailures = [(''test-key'', \<lparr>count = 1, lastFailure = 5\<rparr>)],
      circuitBreakerThreshold = 5, circuitBreakerResetTime = 30000,
      maxFailureEntries = 1000, lastCleanup = 0\<rparr>"
  let ?fails = "mockDriver (Inl (Error ''Driver error'')) (Inr True)"
  let ?grants = "mockDriver (Inr True) (Inr True)"
  have closed: "\<not> isCircuitOpen 5 ''test-key'' ?S"
    by (simp add: isCircuitOpen_def fresh_state)
  have closed1: "\<not> isCircuitOpen 7 ''test-key'' ?S1"
    by (simp add: isCircuitOpen_def)
  have rf: "recordLockFailure 5 ''test-key''
      (?S\<lparr>driver := [TryAcquireCall ''test-key'' ''mock-uuid-123'' 10]\<rparr>) = ?S1"
    by (simp add: fresh_state recordLockFailure_def maybeCleanup_def evictOldest_def
        upsertFailure_def)
  have thrown: "tryAcquire ?fails 5 ''test-key'' ''mock-uuid-123''
      (case expiryInSeconds noOptions of Some n \<Rightarrow> n | None \<Rightarrow> 10) (driver ?S)
    = (Inl (Error ''Driver error''), [TryAcquireCall ''test-key'' ''mock-uuid-123'' 10])"
    by (simp add: mockDriver_def noOptions_expiry fresh_state)
  have thrown1: "tryAcquire ?fails 7 ''test-key'' ''mock-uuid-123''
      (case expiryInSeconds noOptions of Some n \<Rightarrow> n | None \<Rightarrow> 10) (driver ?S1)
    = (Inl (Error ''Driver error''),
       [TryAcquireCall ''test-key'' ''mock-uuid-123'' 10,
        TryAcquireCall ''test-key'' ''mock-uuid-123'' 10])"
    by (simp add: mockDriver_def noOptions_expiry)
  have granted: "tryAcquire ?grants 5 ''test-key'' ''mock-uuid-123''
      (case expiryInSeconds noOptions of Some n \<Rightarrow> n | None \<Rightarrow> 10) (driver ?S)
    = (Inr True, [TryAcquireCall ''test-key'' ''mock-uuid-123'' 10])"
    by (simp add: mockDriver_def noOptions_expiry fresh_state)
  have pre: "distinct (Map_keys (lockFailures ?S1))
      \<and> Map_get (lockFailures ?S1) ''test-key'' = Some \<lparr>count = 1, lastFailure = 5\<rparr>
      \<and> 7 - lastFailure \<lparr>count = 1, lastFailure = 5\<rparr> \<le> circuitBreakerResetTime ?S1
      \<and> Map_size (lockFailures ?S1) < maxFailureEntries ?S1"
    by simp
  from tryAcquire_never_throws [OF closed, of ?fails "''mock-uuid-123''" noOptions] thrown
  have "AtomicLock_tryAcquire ?fails 5 ''mock-uuid-123'' ''test-key'' noOptions ?S =
      (Inr None, recordLockFailure 5 ''test-key''
         (?S\<lparr>driver := [TryAcquireCall ''test-key'' ''mock-uuid-123'' 10]\<rparr>))"
    by blast
  moreover
  from tryAcquire_never_throws [OF closed1, of ?fails "''mock-uuid-123''" noOptions] thrown1 pre
  have "Map_get (lockFailures (snd
        (AtomicLock_tryAcquire ?fails 7 ''mock-uuid-123'' ''test-key'' noOptions ?S1))) ''test-key''
      = Some \<lparr>count = count \<lparr>count = 1, lastFailure = 5\<rparr> + 1, lastFailure = 7\<rparr>"
    by blast
  moreover
  from tryAcquire_never_throws [OF closed, of ?grants "''mock-uuid-123''" noOptions] granted
  have "AtomicLock_tryAcquire ?grants 5 ''mock-uuid-123'' ''test-key'' noOptions ?S =
      (Inr (Some ''mock-uuid-123''),
       ?S\<lparr>driver := [TryAcquireCall ''test-key'' ''mock-uuid-123'' 10],
           lockFailures := Map_delete (lockFailures ?S) ''test-key''\<rparr>)"
    by blast
  ultimately show ?thesis
    using closed by (simp add: rf) (simp add: fresh_state)
qed

text \<open>
  Claim C1 as stated fails where the driver returns \<^verbatim>\<open>false\<close>: the memory driver
  answers \<^verbatim>\<open>false\<close> for a held key, the coordinator returns \<^verbatim>\<open>null\<close>, and no failure
  is on record for the key afterwards.
\<close>

theorem contention_records_no_failure_counterexample:
  "\<not> isCircuitOpen 5 ''k''
        (AtomicLock_new 0 [(''k'', \<lparr>val = ''t0'', expiresAt = 10000, createdAt = 0\<rparr>)] noOptions)
   \<and> fst (tryAcquire (MemoryLockDriver (\<lambda>x. x)) 5 ''k'' ''t1'' 10
        [(''k'', \<lparr>val = ''t0'', expiresAt = 10000, createdAt = 0\<rparr>)]) = Inr False
   \<and> AtomicLock_tryAcquire (MemoryLockDriver (\<lambda>x. x)) 5 ''t1'' ''k'' noOptions
        (AtomicLock_new 0 [(''k'', \<lparr>val = ''t0'', expiresAt = 10000, createdAt = 0\<rparr>)] noOptions)
     = (Inr None,
        AtomicLock_new 0 [(''k'', \<lparr>val = ''t0'', expiresAt = 10000, createdAt = 0\<rparr>)] noOptions)
   \<and> Map_get (lockFailures
        (AtomicLock_new 0 [(''k'', \<lparr>val = ''t0'', expiresAt = 10000, createdAt = 0\<rparr>)] noOptions))
        ''k'' = None
   \<and> failureCount (getCircuitBreakerStatus 5 ''k''
        (snd (AtomicLock_tryAcquire (MemoryLockDriver (\<lambda>x. x)) 5 ''t1'' ''k'' noOptions
          (AtomicLock_new 0 [(''k'', \<lparr>val = ''t0'', expiresAt = 10000, createdAt = 0\<rparr>)]
             noOptions)))) = 0"
  by (simp add: fresh_state isCircuitOpen_def AtomicLock_tryAcquire_def noOptions_expiry
      MemoryLockDriver_def MemoryLockDriver_tryAcquire_def getCircuitBreakerStatus_def)

section \<open>withLock\<close>

lemma release_never_throws: "\<exists>b. fst (AtomicLock_release drv now k tok st) = Inr b"
  by (auto simp: AtomicLock_release_def split: prod.splits sum.splits)

lemma release_driver:
  "driver (snd (AtomicLock_release drv now k tok st)) = snd (release drv now k tok (driver st))"
  by (auto simp: AtomicLock_release_def split: prod.splits sum.splits)

lemma acquire_token:
  "AtomicLock_acquire drv now tok k options st = (Inr v, st1) \<Longrightarrow> v = tok"
  by (auto simp: AtomicLock_acquire_def AtomicLock_tryAcquire_def Let_def
      split: prod.splits sum.splits option.splits if_splits)

text \<open>
  When \<^verbatim>\<open>acquire\<close> returns and when it throws: it returns the minted token exactly
  when the breaker is closed and the driver answers \<^verbatim>\<open>true\<close> (the token, a UUID, is
  not the empty string); in every other case it throws ``Failed to acquire lock''.
\<close>

lemma acquire_outcomes:
  "AtomicLock_acquire drv now tok k options st =
     (if isCircuitOpen now k st
      then (Inl (Error (''Failed to acquire lock for key: '' @ k)), st)
      else (case tryAcquire drv now k tok
                  (case expiryInSeconds options of Some n \<Rightarrow> n | None \<Rightarrow> 10) (driver st) of
              (Inr True, d1) \<Rightarrow>
                if tok = []
                then (Inl (Error (''Failed to acquire lock for key: '' @ k)),
                      st\<lparr>driver := d1, lockFailures := Map_delete (lockFailures st) k\<rparr>)
                else (Inr tok, st\<lparr>driver := d1, lockFailures := Map_delete (lockFailures st) k\<rparr>)
            | (Inr False, d1) \<Rightarrow>
                (Inl (Error (''Failed to acquire lock for key: '' @ k)), st\<lparr>driver := d1\<rparr>)
            | (Inl err, d1) \<Rightarrow>
                (Inl (Error (''Failed to acquire lock for key: '' @ k)),
                 recordLockFailure now k (st\<lparr>driver := d1\<rparr>))))"
  by (auto simp: AtomicLock_acquire_def AtomicLock_tryAcquire_def Let_def
      split: prod.splits sum.splits bool.splits)

text \<open>
  Claim C3.  \<^verbatim>\<open>withLock\<close> first acquires, and an acquisition failure is the outcome
  of the whole call: when the breaker is open, when the driver answers \<^verbatim>\<open>false\<close> and
  when the driver throws, \<^verbatim>\<open>withLock\<close> throws ``Failed to acquire lock for key'' and
  leaves the state \<^verbatim>\<open>tryAcquire\<close> left (the body has not run and nothing is released).
  When the breaker is closed and the driver answers \<^verbatim>\<open>true\<close>, the body runs with the
  minted token on the state of the successful acquisition, and whether the body returns
  or throws, \<^verbatim>\<open>release\<close> then runs with the same key and token on the state the body
  left: the driver's \<^verbatim>\<open>release\<close> method is applied to the driver, and the outcome of
  the call is the body's result or the body's error.  The last two parts say the same
  in terms of what \<^verbatim>\<open>acquire\<close> returned.
\<close>

theorem withLock_always_releases:
  "(isCircuitOpen now k st \<longrightarrow>
       AtomicLock_withLock drv now now' tok k body options st
         = (Inl (Error (''Failed to acquire lock for key: '' @ k)), st))
   \<and> (\<forall>d1. \<not> isCircuitOpen now k st
         \<and> tryAcquire drv now k tok
              (case expiryInSeconds options of Some n \<Rightarrow> n | None \<Rightarrow> 10) (driver st)
            = (Inr False, d1) \<longrightarrow>
       AtomicLock_withLock drv now now' tok k body options st
         = (Inl (Error (''Failed to acquire lock for key: '' @ k)), st\<lparr>driver := d1\<rparr>))
   \<and> (\<forall>err d1. \<not> isCircuitOpen now k st
         \<and> tryAcquire drv now k tok
              (case expiryInSeconds options of Some n \<Rightarrow> n | None \<Rightarrow> 10) (driver st)
            = (Inl err, d1) \<longrightarrow>
       AtomicLock_withLock drv now now' tok k body options st
         = (Inl (Error (''Failed to acquire lock for key: '' @ k)),
            recordLockFailure now k (st\<lparr>driver := d1\<rparr>)))
   \<and> (\<forall>d1 outcome st2. \<not> isCircuitOpen now k st \<and> tok \<noteq> []
         \<and> tryAcquire drv now k tok
              (case expiryInSeconds options of Some n \<Rightarrow> n | None \<Rightarrow> 10) (driver st)
            = (Inr True, d1)
         \<and> body tok (st\<lparr>driver := d1, lockFailures := Map_delete (lockFailures st) k\<rparr>)
            = (outcome, st2) \<longrightarrow>
           AtomicLock_acquire drv now tok k options st
             = (Inr tok, st\<lparr>driver := d1, lockFailures := Map_delete (lockFailures st) k\<rparr>)
         \<and> AtomicLock_withLock drv now now' tok k body options st
             = (outcome, snd (AtomicLock_release drv now' k tok st2))
         \<and> driver (snd (AtomicLock_withLock drv now now' tok k body options st))
             = snd (release drv now' k tok (driver st2)))
   \<and> (\<forall>err st1. AtomicLock_acquire drv now tok k options st = (Inl err, st1) \<longrightarrow>
       AtomicLock_withLock drv now now' tok k body options st = (Inl err, st1))
   \<and> (\<forall>v st1 outcome st2.
         AtomicLock_acquire drv now tok k options st = (Inr v, st1)
         \<and> body v st1 = (outcome, st2) \<longrightarrow>
           v = tok
         \<and> AtomicLock_withLock drv now now' tok k body options st
             = (outcome, snd (AtomicLock_release drv now' k tok st2))
         \<and> driver (snd (AtomicLock_withLock drv now now' tok k body options st))
             = snd (release drv now' k tok (driver st2)))"
proof -
  have failed: "AtomicLock_withLock drv now now' tok k body options st = (Inl err, st1)"
    if "AtomicLock_acquire drv now tok k options st = (Inl err, st1)" for err st1
    using that by (simp add: AtomicLock_withLock_def)
  have ran: "v = tok
      \<and> AtomicLock_withLock drv now now' tok k body options st
          = (outcome, snd (AtomicLock_release drv now' k tok st2))
      \<and> driver (snd (AtomicLock_withLock drv now now' tok k body options st))
          = snd (release drv now' k tok (driver st2))"
    if a: "AtomicLock_acquire drv now tok k options st = (Inr v, st1)"
      and bd: "body v st1 = (outcome, st2)" for v st1 outcome st2
  proof -
    from a have v: "v = tok" by (rule acquire_token)
    obtain b where b: "fst (AtomicLock_release drv now' k tok st2) = Inr b"
      using release_never_throws by blast
    with a bd v have w: "AtomicLock_withLock drv now now' tok k body options st
        = (outcome, snd (AtomicLock_release drv now' k tok st2))"
      by (auto simp: AtomicLock_withLock_def split: prod.splits sum.splits)
    with v show ?thesis by (simp add: release_driver)
  qed
  show ?thesis
  proof (intro conjI allI impI)
    assume "isCircuitOpen now k st"
    then show "AtomicLock_withLock drv now now' tok k body options st
        = (Inl (Error (''Failed to acquire lock for key: '' @ k)), st)"
      by (intro failed) (simp add: acquire_outcomes)
  next
    fix d1
    assume "\<not> isCircuitOpen now k st
      \<and> tryAcquire drv now k tok
           (case expiryInSeconds options of Some n \<Rightarrow> n | None \<Rightarrow> 10) (driver st)
         = (Inr False, d1)"
    then show "AtomicLock_withLock drv now now' tok k body options st
        = (Inl (Error (''Failed to acquire lock for key: '' @ k)), st\<lparr>driver := d1\<rparr>)"
      by (intro failed) (simp add: acquire_outcomes)
  next
    fix err d1
    assume "\<not> isCircuitOpen now k st
      \<and> tryAcquire drv now k tok
           (case expiryInSeconds options of Some n \<Rightarrow> n | None \<Rightarrow> 10) (driver st)
         = (Inl err, d1)"
    then show "AtomicLock_withLock drv now now' tok k body options st
        = (Inl (Error (''Failed to acquire lock for key: '' @ k)),
           recordLockFailure now k (st\<lparr>driver := d1\<rparr>))"
      by (intro failed) (simp add: acquire_outcomes)
  next
    fix d1 outcome st2
    assume h: "\<not> isCircuitOpen now k st \<and> tok \<noteq> []
      \<and> tryAcquire drv now k tok
           (case expiryInSeconds options of Some n \<Rightarrow> n | None \<Rightarrow> 10) (driver st)
         = (Inr True, d1)
      \<and> body tok (st\<lparr>driver := d1, lockFailures := Map_delete (lockFailures st) k\<rparr>)
         = (outcome, st2)"
    then show acq: "AtomicLock_acquire drv now tok k options st
        = (Inr tok, st\<lparr>driver := d1, lockFailures := Map_delete (lockFailures st) k\<rparr>)"
      by (simp add: acquire_outcomes)
    from ran [OF acq] h
    show "AtomicLock_withLock drv now now' tok k body options st
        = (outcome, snd (AtomicLock_release drv now' k tok st2))"
      and "driver (snd (AtomicLock_withLock drv now now' tok k body options st))
        = snd (release drv now' k tok (driver st2))"
      by blast+
  next
    fix err st1
    assume "AtomicLock_acquire drv now tok k options st = (Inl err, st1)"
    then show "AtomicLock_withLock drv now now' tok k body options st = (Inl err, st1)"
      by (rule failed)
  next
    fix v st1 outcome st2
    assume "AtomicLock_acquire drv now tok k options st = (Inr v, st1)
      \<and> body v st1 = (outcome, st2)"
    then have r: "v = tok
      \<and> AtomicLock_withLock drv now now' tok k body options st
          = (outcome, snd (AtomicLock_release drv now' k tok st2))
      \<and> driver (snd (AtomicLock_withLock drv now now' tok k body options st))
          = snd (release drv now' k tok (driver st2))"
      using ran by blast
    from r show "v = tok" by blast
    from r show "AtomicLock_withLock drv now now' tok k body options st
        = (outcome, snd (AtomicLock_release drv now' k tok st2))" by blast
    from r show "driver (snd (AtomicLock_withLock drv now now' tok k body options st))
        = snd (release drv now' k tok (driver st2))" by blast
  qed
qed

text \<open>
  The test suite's runs on a fresh instance.  With a granting driver, a body that
  throws ``Callback error'' and a body that returns: in both the driver has received
  the acquisition and then the release with the same key and token.  With a driver
  that answers \<^verbatim>\<open>false\<close>: \<^verbatim>\<open>withLock\<close> throws, and the driver has received the
  acquisition only.
\<close>

theorem withLock_always_releases_witness:
  "AtomicLock_withLock (mockDriver (Inr True) (Inr True)) 5 9 ''mock-uuid-123'' ''test-key''
      (\<lambda>lockValue s. (Inl (Error ''Callback error''), s)) noOptions
      (AtomicLock_new 0 [] noOptions)
    = (Inl (Error ''Callback error'') :: error + unit,
       \<lparr>driver = [TryAcquireCall ''test-key'' ''mock-uuid-123'' 10,
                  ReleaseCall ''test-key'' ''mock-uuid-123''],
        lockFailures = [], circuitBreakerThreshold = 5, circuitBreakerResetTime = 30000,
        maxFailureEntries = 1000, lastCleanup = 0\<rparr>)
   \<and> AtomicLock_withLock (mockDriver (Inr True) (Inr True)) 5 9 ''mock-uuid-123'' ''test-key''
      (\<lambda>lockValue s. (Inr ''callback-result'', s)) noOptions
      (AtomicLock_new 0 [] noOptions)
    = (Inr ''callback-result'',
       \<lparr>driver = [TryAcquireCall ''test-key'' ''mock-uuid-123'' 10,
                  ReleaseCall ''test-key'' ''mock-uuid-123''],
        lockFailures = [], circuitBreakerThreshold = 5, circuitBreakerResetTime = 30000,
        maxFailureEntries = 1000, lastCleanup = 0\<rparr>)
   \<and> AtomicLock_withLock (mockDriver (Inr False) (Inr True)) 5 9 ''mock-uuid-123'' ''test-key''
      (\<lambda>lockValue s. (Inr ''callback-result'', s)) noOptions
      (AtomicLock_new 0 [] noOptions)
    = (Inl (Error ''Failed to acquire lock for key: test-key''),
       \<lparr>driver = [TryAcquireCall ''test-key'' ''mock-uuid-123'' 10],
        lockFailures = [], circuitBreakerThreshold = 5, circuitBreakerResetTime = 30000,
        maxFailureEntries = 1000, lastCleanup = 0\<rparr>)"
proof -
  let ?S = "AtomicLock_new 0 ([] :: driver_call list) noOptions"
  let ?S1 = "\<lparr>driver = [TryAcquireCall ''test-key'' ''mock-uuid-123'' 10],
        lockFailures = [], circuitBreakerThreshold = 5, circuitBreakerResetTime = 30000,
        maxFailureEntries = 1000, lastCleanup = 0\<rparr>"
  let ?grants = "mockDriver (Inr True) (Inr True)"
  let ?refuses = "mockDriver (Inr False) (Inr True)"
  have closed: "\<not> isCircuitOpen 5 ''test-key'' ?S"
    by (simp add: isCircuitOpen_def fresh_state)
  have tok: "''mock-uuid-123'' \<noteq> []" by simp
  have granted: "tryAcquire ?grants 5 ''test-key'' ''mock-uuid-123''
      (case expiryInSeconds noOptions of Some n \<Rightarrow> n | None \<Rightarrow> 10) (driver ?S)
    = (Inr True, [TryAcquireCall ''test-key'' ''mock-uuid-123'' 10])"
    by (simp add: mockDriver_def noOptions_expiry fresh_state)
  have refused: "tryAcquire ?refuses 5 ''test-key'' ''mock-uuid-123''
      (case expiryInSeconds noOptions of Some n \<Rightarrow> n | None \<Rightarrow> 10) (driver ?S)
    = (Inr False, [TryAcquireCall ''test-key'' ''mock-uuid-123'' 10])"
    by (simp add: mockDriver_def noOptions_expiry fresh_state)
  have st1: "?S\<lparr>driver := [TryAcquireCall ''test-key'' ''mock-uuid-123'' 10],
      lockFailures := Map_delete (lockFailures ?S) ''test-key''\<rparr> = ?S1"
    by (simp add: fresh_state)
  have st1': "?S\<lparr>driver := [TryAcquireCall ''test-key'' ''mock-uuid-123'' 10]\<rparr> = ?S1"
    by (simp add: fresh_state)
  have rel: "snd (AtomicLock_release ?grants 9 ''test-key'' ''mock-uuid-123'' ?S1)
    = \<lparr>driver = [TryAcquireCall ''test-key'' ''mock-uuid-123'' 10,
                  ReleaseCall ''test-key'' ''mock-uuid-123''],
        lockFailures = [], circuitBreakerThreshold = 5, circuitBreakerResetTime = 30000,
        maxFailureEntries = 1000, lastCleanup = 0\<rparr>"
    by (simp add: AtomicLock_release_def mockDriver_def)
  have body1: "(\<lambda>lockValue s. (Inl (Error ''Callback error'') :: error + unit, s))
      ''mock-uuid-123''
      (?S\<lparr>driver := [TryAcquireCall ''test-key'' ''mock-uuid-123'' 10],
          lockFailures := Map_delete (lockFailures ?S) ''test-key''\<rparr>)
    = (Inl (Error ''Callback error''), ?S1)"
    by (simp add: st1)
  have body2: "(\<lambda>lockValue s. (Inr ''callback-result'' :: error + string, s))
      ''mock-uuid-123''
      (?S\<lparr>driver := [TryAcquireCall ''test-key'' ''mock-uuid-123'' 10],
          lockFailures := Map_delete (lockFailures ?S) ''test-key''\<rparr>)
    = (Inr ''callback-result'', ?S1)"
    by (simp add: st1)
  from withLock_always_releases [of 5 "''test-key''" ?S ?grants 9 "''mock-uuid-123''"
      "\<lambda>lockValue s. (Inl (Error ''Callback error'') :: error + unit, s)" noOptions]
    closed tok granted body1
  have "AtomicLock_withLock ?grants 5 9 ''mock-uuid-123'' ''test-key''
      (\<lambda>lockValue s. (Inl (Error ''Callback error'') :: error + unit, s)) noOptions ?S
    = (Inl (Error ''Callback error''),
       snd (AtomicLock_release ?grants 9 ''test-key'' ''mock-uuid-123'' ?S1))"
    by blast
  moreover
  from withLock_always_releases [of 5 "''test-key''" ?S ?grants 9 "''mock-uuid-123''"
      "\<lambda>lockValue s. (Inr ''callback-result'' :: error + string, s)" noOptions]
    closed tok granted body2
  have "AtomicLock_withLock ?grants 5 9 ''mock-uuid-123'' ''test-key''
      (\<lambda>lockValue s. (Inr ''callback-result'' :: error + string, s)) noOptions ?S
    = (Inr ''callback-result'',
       snd (AtomicLock_release ?grants 9 ''test-key'' ''mock-uuid-123'' ?S1))"
    by blast
  moreover
  from withLock_always_releases [of 5 "''test-key''" ?S ?refuses 9 "''mock-uuid-123''"
      "\<lambda>lockValue s. (Inr ''callback-result'' :: error + string, s)" noOptions]
    closed refused
  have "AtomicLock_withLock ?refuses 5 9 ''mock-uuid-123'' ''test-key''
      (\<lambda>lockValue s. (Inr ''callback-result'' :: error + string, s)) noOptions ?S
    = (Inl (Error (''Failed to acquire lock for key: '' @ ''test-key'')),
       ?S\<lparr>driver := [TryAcquireCall ''test-key'' ''mock-uuid-123'' 10]\<rparr>)"
    by blast
  ultimately show ?thesis by (simp add: rel st1')
qed

section \<open>close\<close>

text \<open>
  Claim C10.  \<^verbatim>\<open>close()\<close> empties the failure map and changes nothing else: the
  driver's state is the same, every key's status afterwards is closed with failure
  count 0, and the instance still works: a later \<^verbatim>\<open>tryAcquire\<close> reaches the driver
  and returns the token when the driver grants, and a later \<^verbatim>\<open>release\<close> returns what
  the driver's \<^verbatim>\<open>release\<close> returns.
\<close>

theorem close_clears_failures_only:
  "lockFailures (AtomicLock_close st) = []
   \<and> driver (AtomicLock_close st) = driver st
   \<and> AtomicLock_close st = st\<lparr>lockFailures := []\<rparr>
   \<and> getCircuitBreakerStatus now k (AtomicLock_close st)
       = \<lparr>isOpen = False, failureCount = 0, lastFailureAt = None, nextAttemptAt = None\<rparr>
   \<and> (\<forall>d1. tryAcquire drv now k tok
              (case expiryInSeconds options of Some n \<Rightarrow> n | None \<Rightarrow> 10) (driver st)
            = (Inr True, d1) \<longrightarrow>
          AtomicLock_tryAcquire drv now tok k options (AtomicLock_close st)
            = (Inr (Some tok), st\<lparr>driver := d1, lockFailures := []\<rparr>))
   \<and> (\<forall>b d1. release drv now k tok (driver st) = (Inr b, d1) \<longrightarrow>
          AtomicLock_release drv now k tok (AtomicLock_close st)
            = (Inr b, st\<lparr>driver := d1, lockFailures := []\<rparr>))"
  by (auto simp: AtomicLock_close_def getCircuitBreakerStatus_def isCircuitOpen_def
      AtomicLock_tryAcquire_def AtomicLock_release_def Let_def)

text \<open>
  A memory-driver instance whose breaker for \<open>k\<close> is open: after \<^verbatim>\<open>close()\<close> the
  breaker is closed, the key can be acquired, and the token releases it.
\<close>

theorem close_clears_failures_only_witness:
  "isCircuitOpen 1000 ''k''
     \<lparr>driver = [] :: locks, lockFailures = [(''k'', \<lparr>count = 5, lastFailure = 900\<rparr>)],
      circuitBreakerThreshold = 5, circuitBreakerResetTime = 30000,
      maxFailureEntries = 1000, lastCleanup = 0\<rparr>
   \<and> AtomicLock_tryAcquire (MemoryLockDriver (\<lambda>x. x)) 1000 ''t1'' ''k'' noOptions
       (AtomicLock_close
         \<lparr>driver = [], lockFailures = [(''k'', \<lparr>count = 5, lastFailure = 900\<rparr>)],
          circuitBreakerThreshold = 5, circuitBreakerResetTime = 30000,
          maxFailureEntries = 1000, lastCleanup = 0\<rparr>)
     = (Inr (Some ''t1''),
        \<lparr>driver = [(''k'', \<lparr>val = ''t1'', expiresAt = 11000, createdAt = 1000\<rparr>)],
         lockFailures = [], circuitBreakerThreshold = 5, circuitBreakerResetTime = 30000,
         maxFailureEntries = 1000, lastCleanup = 0\<rparr>)
   \<and> AtomicLock_release (MemoryLockDriver (\<lambda>x. x)) 1000 ''k'' ''t1''
       (AtomicLock_close
         \<lparr>driver = [(''k'', \<lparr>val = ''t1'', expiresAt = 11000, createdAt = 1000\<rparr>)],
          lockFailures = [], circuitBreakerThreshold = 5, circuitBreakerResetTime = 30000,
          maxFailureEntries = 1000, lastCleanup = 0\<rparr>)
     = (Inr True,
        \<lparr>driver = [], lockFailures = [], circuitBreakerThreshold = 5,
         circuitBreakerResetTime = 30000, maxFailureEntries = 1000, lastCleanup = 0\<rparr>)"
proof -
  let ?S = "\<lparr>driver = [] :: locks, lockFailures = [(''k'', \<lparr>count = 5, lastFailure = 900\<rparr>)],
      circuitBreakerThreshold = 5, circuitBreakerResetTime = 30000,
      maxFailureEntries = 1000, lastCleanup = 0\<rparr>"
  let ?S1 = "\<lparr>driver = [(''k'', \<lparr>val = ''t1'', expiresAt = 11000, createdAt = 1000\<rparr>)],
      lockFailures = [], circuitBreakerThreshold = 5, circuitBreakerResetTime = 30000,
      maxFailureEntries = 1000, lastCleanup = 0\<rparr>"
  have "open": "isCircuitOpen 1000 ''k'' ?S"
    by (simp add: isCircuitOpen_def)
  have granted: "tryAcquire (MemoryLockDriver (\<lambda>x. x)) 1000 ''k'' ''t1''
      (case expiryInSeconds noOptions of Some n \<Rightarrow> n | None \<Rightarrow> 10) (driver ?S)
    = (Inr True, [(''k'', \<lparr>val = ''t1'', expiresAt = 11000, createdAt = 1000\<rparr>)])"
    by (simp add: MemoryLockDriver_def MemoryLockDriver_tryAcquire_def noOptions_expiry addMs_def)
  have released: "release (MemoryLockDriver (\<lambda>x. x)) 1000 ''k'' ''t1'' (driver ?S1) = (Inr True, [])"
    by (simp add: MemoryLockDriver_def MemoryLockDriver_release_def)
  from close_clears_failures_only [of ?S 1000 "''k''" "MemoryLockDriver (\<lambda>x. x)" "''t1''" noOptions] granted
  have "AtomicLock_tryAcquire (MemoryLockDriver (\<lambda>x. x)) 1000 ''t1'' ''k'' noOptions (AtomicLock_close ?S)
      = (Inr (Some ''t1''),
         ?S\<lparr>driver := [(''k'', \<lparr>val = ''t1'', expiresAt = 11000, createdAt = 1000\<rparr>)],
             lockFailures := []\<rparr>)"
    by blast
  moreover
  from close_clears_failures_only [of ?S1 1000 "''k''" "MemoryLockDriver (\<lambda>x. x)" "''t1''" noOptions] released
  have "AtomicLock_release (MemoryLockDriver (\<lambda>x. x)) 1000 ''k'' ''t1'' (AtomicLock_close ?S1)
      = (Inr True, ?S1\<lparr>driver := [], lockFailures := []\<rparr>)"
    by blast
  ultimately show ?thesis using "open" by simp
qed

section \<open>Multi-key operations of the coordinator\<close>

text \<open>
  Claim C9 has nothing to stand on in the class: \<^verbatim>\<open>AtomicLock\<close> declares neither
  \<^verbatim>\<open>tryAcquireMultiple\<close> nor \<^verbatim>\<open>releaseMultiple\<close> (nor \<^verbatim>\<open>resetCircuitBreaker\<close>),
  although the README's API reference lists them; only the drivers implement the
  multi-key operations.
\<close>

theorem no_multi_key_methods:
  "''tryAcquireMultiple'' \<notin> set AtomicLock_methods
   \<and> ''releaseMultiple'' \<notin> set AtomicLock_methods
   \<and> ''resetCircuitBreaker'' \<notin> set AtomicLock_methods"
  by (simp add: AtomicLock_methods_def)


end
